theory Spec2Isabelle
  imports Complex_Main
begin

section \<open>JavaScript numbers, Math functions and clamped byte arrays\<close>

text \<open>
  The layer computes with JavaScript numbers.  A number is modelled as a real or one of
  NaN and the two infinities; \<open>undefined\<close> is read as NaN, which is what every operation
  applied to a weight here turns it into.  For the byte arithmetic of both passes over the
  pixels the reals are exact (the operands are integers of at most three digits, and a
  quotient of such integers is either a half-integer, which a double represents, or
  farther from every half-integer than a double's rounding error).  The comparison that
  selects the point of a grid cell depends on exact ties, so its subtraction is the
  double's: operands and difference are rounded to binary64.  For coordinates and paint
  opacities the rounding of doubles is left out.
\<close>

datatype jsnum = Fin real | PosInf | NegInf | NaN

fun js_minus :: "jsnum \<Rightarrow> jsnum \<Rightarrow> jsnum" where
  \<comment> \<open>\<open>a - b\<close>, the finite case without rounding.\<close>
  "js_minus NaN b = NaN"
| "js_minus a NaN = NaN"
| "js_minus (Fin x) (Fin y) = Fin (x - y)"
| "js_minus (Fin x) PosInf = NegInf"
| "js_minus (Fin x) NegInf = PosInf"
| "js_minus PosInf PosInf = NaN"
| "js_minus PosInf b = PosInf"
| "js_minus NegInf NegInf = NaN"
| "js_minus NegInf b = NegInf"

fun js_mul :: "real \<Rightarrow> jsnum \<Rightarrow> jsnum" where
  \<comment> \<open>The product of a finite number and a number: zero times an infinity is NaN.\<close>
  "js_mul x (Fin y) = Fin (x * y)"
| "js_mul x PosInf = (if x = 0 then NaN else if x > 0 then PosInf else NegInf)"
| "js_mul x NegInf = (if x = 0 then NaN else if x > 0 then NegInf else PosInf)"
| "js_mul x NaN = NaN"

fun js_gt :: "jsnum \<Rightarrow> jsnum \<Rightarrow> bool" where
  \<comment> \<open>\<open>a > b\<close>: false as soon as one side is NaN.\<close>
  "js_gt NaN b = False"
| "js_gt a NaN = False"
| "js_gt (Fin x) (Fin y) = (x > y)"
| "js_gt PosInf PosInf = False"
| "js_gt PosInf b = True"
| "js_gt a PosInf = False"
| "js_gt NegInf b = False"
| "js_gt a NegInf = True"

fun js_le :: "jsnum \<Rightarrow> jsnum \<Rightarrow> bool" where
  \<comment> \<open>\<open>a <= b\<close>: false as soon as one side is NaN.\<close>
  "js_le NaN b = False"
| "js_le a NaN = False"
| "js_le (Fin x) (Fin y) = (x \<le> y)"
| "js_le NegInf b = True"
| "js_le a PosInf = True"
| "js_le PosInf b = False"
| "js_le a NegInf = False"

fun Math_abs :: "jsnum \<Rightarrow> jsnum" where
  "Math_abs (Fin x) = Fin \<bar>x\<bar>"
| "Math_abs PosInf = PosInf"
| "Math_abs NegInf = PosInf"
| "Math_abs NaN = NaN"

definition js_div :: "real \<Rightarrow> real \<Rightarrow> jsnum" where
  \<comment> \<open>\<open>x / y\<close> on numbers: a zero divisor gives NaN or an infinity, never an exception.\<close>
  "js_div x y =
     (if y \<noteq> 0 then Fin (x / y)
      else if x > 0 then PosInf
      else if x < 0 then NegInf
      else NaN)"

definition Math_round :: "real \<Rightarrow> int" where
  \<comment> \<open>\<open>Math.round\<close>: nearest integer, halves towards plus infinity.\<close>
  "Math_round x = \<lfloor>x + 1 / 2\<rfloor>"

fun Math_round_num :: "jsnum \<Rightarrow> jsnum" where
  \<comment> \<open>\<open>Math.round\<close> on a possibly non-finite number: NaN and the infinities pass through.\<close>
  "Math_round_num (Fin x) = Fin (real_of_int (Math_round x))"
| "Math_round_num v = v"

definition clamp :: "'a::linorder \<Rightarrow> 'a \<Rightarrow> 'a \<Rightarrow> 'a" where
  \<comment> \<open>Modelled from the spec: \<open>clamp\<close> of \<open>ol/math.js\<close> is imported by the layer and is
      not part of the sources; the spec uses it as "clamping into [min, max]", which is
      \<open>Math.min(Math.max(value, min), max)\<close>.\<close>
  "clamp v lo hi = min (max v lo) hi"

fun clamp_num :: "jsnum \<Rightarrow> real \<Rightarrow> real \<Rightarrow> jsnum" where
  \<comment> \<open>Modelled from the spec: the same \<open>clamp\<close>, \<open>Math.min(Math.max(value, min), max)\<close>, on
      a number that may be NaN or infinite: NaN stays NaN.\<close>
  "clamp_num (Fin x) lo hi = Fin (clamp x lo hi)"
| "clamp_num PosInf lo hi = Fin hi"
| "clamp_num NegInf lo hi = Fin (min lo hi)"
| "clamp_num NaN lo hi = NaN"

fun ToUint8Clamp :: "jsnum \<Rightarrow> int" where
  \<comment> \<open>The conversion applied by every store into a \<open>Uint8ClampedArray\<close>: NaN becomes 0,
      the value is clamped to [0, 255] and rounded to the nearest integer, ties to even.\<close>
  "ToUint8Clamp (Fin x) =
     (if x \<le> 0 then 0
      else if x \<ge> 255 then 255
      else let f = \<lfloor>x\<rfloor> in
        if x - real_of_int f < 1 / 2 then f
        else if x - real_of_int f > 1 / 2 then f + 1
        else if even f then f else f + 1)"
| "ToUint8Clamp PosInf = 255"
| "ToUint8Clamp NegInf = 0"
| "ToUint8Clamp NaN = 0"

definition store8 :: "int \<Rightarrow> int" where
  \<comment> \<open>Storing an integer-valued number into a \<open>Uint8ClampedArray\<close>.\<close>
  "store8 v = ToUint8Clamp (Fin (real_of_int v))"

text \<open>
  Rounding to binary64 (round to nearest, ties to even).  \<open>exponent\<close> finds the binade of
  a number by halving or doubling it, not below the smallest normal binade (so that the
  spacing there is that of the subnormal numbers) and not above the first binade that
  overflows.
\<close>

fun doublings :: "nat \<Rightarrow> real \<Rightarrow> nat" where
  "doublings 0 x = 0"
| "doublings (Suc n) x = (if x < 1 then Suc (doublings n (2 * x)) else 0)"

fun halvings :: "nat \<Rightarrow> real \<Rightarrow> nat" where
  "halvings 0 x = 0"
| "halvings (Suc n) x = (if 2 \<le> x then Suc (halvings n (x / 2)) else 0)"

definition exponent :: "real \<Rightarrow> int" where
  "exponent x =
     (if 1 \<le> \<bar>x\<bar> then int (halvings 1024 \<bar>x\<bar>) else - int (doublings 1022 \<bar>x\<bar>))"

definition pow2 :: "int \<Rightarrow> real" where
  "pow2 e = (if 0 \<le> e then 2 ^ nat e else 1 / 2 ^ nat (- e))"

definition round_even :: "real \<Rightarrow> int" where
  "round_even x =
     (let f = \<lfloor>x\<rfloor> in
      if x - real_of_int f < 1 / 2 then f
      else if x - real_of_int f > 1 / 2 then f + 1
      else if even f then f else f + 1)"

definition binary64 :: "real \<Rightarrow> jsnum" where
  \<comment> \<open>The double nearest to a real: the nearest multiple of the spacing of its binade,
      an infinity from \<open>2 ^ 1024\<close> on.\<close>
  "binary64 x =
     (let q = pow2 (exponent x - 52);
          y = real_of_int (round_even (x / q)) * q
      in if pow2 1024 \<le> \<bar>y\<bar> then (if 0 < y then PosInf else NegInf) else Fin y)"

fun num64 :: "jsnum \<Rightarrow> jsnum" where
  "num64 (Fin x) = binary64 x"
| "num64 v = v"

definition fsub :: "jsnum \<Rightarrow> jsnum \<Rightarrow> jsnum" where
  \<comment> \<open>\<open>a - b\<close> on doubles: the operands are doubles and the difference is rounded.\<close>
  "fsub a b = num64 (js_minus (num64 a) (num64 b))"

definition for4 :: "nat \<Rightarrow> nat list" where
  \<comment> \<open>The indices visited by \<open>for (let i = 0; i < len; i += 4)\<close>.\<close>
  "for4 len = map (\<lambda>k. 4 * k) [0..<(len + 3) div 4]"

section \<open>Colour lookup and alpha rescale (handleRender_, lines 445-468)\<close>

text \<open>
  \<open>hiA\<close>, \<open>loA\<close> and \<open>img\<close> are flat RGBA byte arrays of the same length (all three have
  \<open>canvas.width * canvas.height * 4\<close> entries in the source); \<open>gradient\<close> is the layer's
  \<open>gradient_\<close> table of 256 RGBA entries.
\<close>

definition signed_weight :: "int list \<Rightarrow> int list \<Rightarrow> nat \<Rightarrow> int" where
  \<comment> \<open>\<open>const w = clamp(Math.round(128 + (hiA[i + 3] - loA[i + 3]) / 2), 0, 255)\<close>\<close>
  "signed_weight hiA loA i =
     clamp (Math_round (128 + (real_of_int (hiA ! (i + 3)) - real_of_int (loA ! (i + 3))) / 2)) 0 255"

definition color_step ::
  "int list \<Rightarrow> int list \<Rightarrow> int list \<Rightarrow> nat \<Rightarrow> int list \<times> int \<times> int \<Rightarrow> int list \<times> int \<times> int" where
  \<comment> \<open>One iteration of the first loop; the state is \<open>(img, wMin, wMax)\<close>.\<close>
  "color_step gradient hiA loA i s =
     (case s of (img, wMin, wMax) \<Rightarrow>
        let w = signed_weight hiA loA i;
            wMax' = (if w > wMax then w else wMax);
            wMin' = (if w < wMin then w else wMin);
            posOnGradient = nat (w * 4);
            img' = (if posOnGradient \<noteq> 0
                    then img[i := store8 (gradient ! posOnGradient),
                             i + 1 := store8 (gradient ! (posOnGradient + 1)),
                             i + 2 := store8 (gradient ! (posOnGradient + 2))]
                    else img)
        in (img', wMin', wMax'))"

definition color_pass ::
  "int list \<Rightarrow> int list \<Rightarrow> int list \<Rightarrow> int list \<Rightarrow> int list \<times> int \<times> int" where
  \<comment> \<open>\<open>let wMin = 255, wMax = 0; for (let i = 0, len = img.length; i < len; i += 4) ...\<close>\<close>
  "color_pass gradient hiA loA img =
     fold (color_step gradient hiA loA) (for4 (length img)) (img, 255, 0)"

definition rescaled_alpha :: "int \<Rightarrow> int \<Rightarrow> int \<Rightarrow> jsnum" where
  \<comment> \<open>\<open>Math.round((img[i + 3] - wMin) * 255.0 / (wMax - wMin))\<close>, before it is stored.\<close>
  "rescaled_alpha wMin wMax a =
     Math_round_num (js_div ((real_of_int a - real_of_int wMin) * 255)
                            (real_of_int wMax - real_of_int wMin))"

definition rescale_step :: "int \<Rightarrow> int \<Rightarrow> nat \<Rightarrow> int list \<Rightarrow> int list" where
  "rescale_step wMin wMax i img =
     img[i + 3 := ToUint8Clamp (rescaled_alpha wMin wMax (img ! (i + 3)))]"

definition rescale_pass :: "int \<Rightarrow> int \<Rightarrow> int list \<Rightarrow> int list" where
  \<comment> \<open>The second loop: it runs for every frame that reaches it; there is no test of
      \<open>wMax - wMin\<close> in the source.\<close>
  "rescale_pass wMin wMax img = fold (rescale_step wMin wMax) (for4 (length img)) img"

definition resolve :: "int list \<Rightarrow> int list \<Rightarrow> int list \<Rightarrow> int list \<Rightarrow> int list" where
  "resolve gradient hiA loA img =
     (case color_pass gradient hiA loA img of
        (img', wMin, wMax) \<Rightarrow> rescale_pass wMin wMax img')"


section \<open>The layer, the frame state and the drawing context\<close>

datatype error = TypeError | IndexSizeError

type_synonym coordinate = "real \<times> real"

record feature =
  getGeometry :: "coordinate option"   \<comment> \<open>\<open>None\<close>: the feature has no geometry\<close>
  attr_weight :: "real option"         \<comment> \<open>the attribute \<open>weight\<close>, \<open>None\<close> when it is not set\<close>

definition get_weight :: "feature \<Rightarrow> jsnum" where
  \<comment> \<open>The default accessor of lines 141-146, \<open>feature.get('weight')\<close>: \<open>undefined\<close> for a
      feature without the attribute.\<close>
  "get_weight feature = (case attr_weight feature of None \<Rightarrow> NaN | Some w \<Rightarrow> Fin w)"

record vector_source =
  getFeatures :: "feature list option"

record layer_state =
  is_hilomap :: bool                     \<comment> \<open>\<open>layers[ii].layer instanceof Hilomap\<close>\<close>
  getVisible :: bool
  getSource :: "vector_source option"  \<comment> \<open>\<open>None\<close>: the layer has no source\<close>

record frame_state =
  resolution :: real                     \<comment> \<open>\<open>frameState.viewState.resolution\<close>, positive\<close>
  extent :: "real \<times> real \<times> real \<times> real"
  pixelRatio :: real
  coordinateToPixelTransform :: "real \<times> real \<times> real \<times> real \<times> real \<times> real"
  layerStatesArray :: "layer_state list"

text \<open>
  The fields of the layer that the render path can see.  The weight accessor returns a
  number or \<open>undefined\<close>.  A name cannot end in an underscore here: the private fields
  \<open>gradient_\<close>, \<open>shadow_\<close>, \<open>baseResolution_\<close> and \<open>weight_\<close> carry the prefix \<open>this\<close>
  instead, and the methods \<open>createCircle_\<close> and \<open>handleRender_\<close> are \<open>createCircle\<close> and
  \<open>handleRender\<close>.
\<close>

record hilomap =
  getRadius :: real
  getBlur :: real
  this_gradient :: "int list"           \<comment> \<open>\<open>this.gradient_\<close>\<close>
  this_shadow :: real                   \<comment> \<open>\<open>this.shadow_\<close>\<close>
  this_baseResolution :: "real option"  \<comment> \<open>\<open>this.baseResolution_\<close>, \<open>None\<close> for \<open>undefined\<close>\<close>
  this_weight :: "feature \<Rightarrow> jsnum"     \<comment> \<open>\<open>this.weight_\<close>\<close>

text \<open>
  The offscreen context returned by \<open>createCircle\<close>: the size of its canvas and the
  settings under which the disc is filled.  The width and height of a canvas are unsigned
  integers: a size is converted as every \<open>unsigned long\<close> is (truncated, modulo \<open>2 ^ 32\<close>),
  and a value above \<open>2 ^ 31 - 1\<close> gives the default size (300 wide, 150 high).
\<close>

definition to_unsigned_long :: "real \<Rightarrow> nat" where
  "to_unsigned_long x = nat ((if 0 \<le> x then \<lfloor>x\<rfloor> else \<lceil>x\<rceil>) mod 2 ^ 32)"

definition canvas_dim :: "nat \<Rightarrow> real \<Rightarrow> nat" where
  \<comment> \<open>The value of \<open>canvas.width\<close> or \<open>canvas.height\<close> after a size was assigned to it.\<close>
  "canvas_dim dflt x = (let n = to_unsigned_long x in if n < 2 ^ 31 then n else dflt)"

record circle_context =
  circle_width :: nat
  circle_height :: nat
  shadowOffsetX :: real
  shadowOffsetY :: real
  shadowBlur :: real
  shadowColor :: string
  arc_x :: real
  arc_y :: real
  arc_radius :: real

definition createCanvasContext2D :: "real \<Rightarrow> real \<Rightarrow> circle_context" where
  \<comment> \<open>Modelled from the spec: \<open>createCanvasContext2D\<close> of \<open>ol/dom.js\<close> is imported and not
      part of the sources; the spec has it "create an offscreen 2D context of given size".
      The drawing settings are those of a new context.\<close>
  "createCanvasContext2D w h =
     \<lparr>circle_width = canvas_dim 300 w, circle_height = canvas_dim 150 h,
      shadowOffsetX = 0, shadowOffsetY = 0, shadowBlur = 0, shadowColor = ''rgba(0, 0, 0, 0)'',
      arc_x = 0, arc_y = 0, arc_radius = 0\<rparr>"

datatype call =
    ClearRect
  | DrawImage real real real    \<comment> \<open>the global alpha in force, then \<open>dx\<close> and \<open>dy\<close>\<close>
  | GetImageData
  | PutImageData "int list"

text \<open>
  The event's drawing context: the canvas size, its RGBA bytes, the paint opacity and
  the calls made on it so far.  How a stamp is blended into the bytes is the browser's
  business and is a parameter of the model (a \<open>compositor\<close>: stamp, paint opacity,
  \<open>dx\<close>, \<open>dy\<close>, canvas width and height, bytes before; bytes after).  The context is
  taken with the identity transform and without a clip, so that \<open>clearRect\<close> over the
  canvas size clears every pixel.  \<open>getImageData\<close> raises on a canvas without pixels;
  this is left out, the canvas of a frame being taken to have at least one pixel.
\<close>

record context2d =
  width :: nat
  height :: nat
  data :: "int list"
  globalAlpha :: real
  calls :: "call list"

type_synonym compositor =
  "circle_context \<Rightarrow> real \<Rightarrow> real \<Rightarrow> real \<Rightarrow> nat \<Rightarrow> nat \<Rightarrow> int list \<Rightarrow> int list"

record render_event =
  event_context :: context2d
  frameState :: frame_state

definition clearRect :: "context2d \<Rightarrow> context2d" where
  \<comment> \<open>\<open>context.clearRect(0, 0, canvas.width, canvas.height)\<close>: every pixel becomes
      transparent black.\<close>
  "clearRect ctx =
     ctx\<lparr>data := replicate (width ctx * height ctx * 4) 0, calls := calls ctx @ [ClearRect]\<rparr>"

fun set_globalAlpha :: "jsnum \<Rightarrow> context2d \<Rightarrow> context2d" where
  \<comment> \<open>An assignment to \<open>globalAlpha\<close> of a value outside [0, 1], of NaN or of an infinity
      is ignored by the canvas.\<close>
  "set_globalAlpha (Fin a) ctx = (if 0 \<le> a \<and> a \<le> 1 then ctx\<lparr>globalAlpha := a\<rparr> else ctx)"
| "set_globalAlpha v ctx = ctx"

definition drawImage :: "compositor \<Rightarrow> circle_context \<Rightarrow> real \<Rightarrow> real \<Rightarrow> context2d \<Rightarrow> context2d" where
  "drawImage blend stamp dx dy ctx =
     ctx\<lparr>data := blend stamp (globalAlpha ctx) dx dy (width ctx) (height ctx) (data ctx),
         calls := calls ctx @ [DrawImage (globalAlpha ctx) dx dy]\<rparr>"

definition getImageData :: "context2d \<Rightarrow> int list \<times> context2d" where
  "getImageData ctx = (data ctx, ctx\<lparr>calls := calls ctx @ [GetImageData]\<rparr>)"

definition putImageData :: "int list \<Rightarrow> context2d \<Rightarrow> context2d" where
  "putImageData imagedata ctx =
     ctx\<lparr>data := imagedata, calls := calls ctx @ [PutImageData imagedata]\<rparr>"

section \<open>The stamp and the gradient table\<close>

definition createCircle :: "hilomap \<Rightarrow> real \<Rightarrow> error + circle_context" where
  \<comment> \<open>\<open>createCircle_\<close>.  \<open>context.arc\<close> raises IndexSizeError on a negative radius; nothing
      else here can raise.  The commented-out lines that used \<open>this.shadow_\<close> are not
      executed.\<close>
  "createCircle this scaleRatio =
     (let radius = getRadius this * scaleRatio;
          blur = getBlur this * scaleRatio;
          halfSize = radius + blur + 1;
          size = 2 * halfSize;
          context = createCanvasContext2D size size;
          center = - 1 * halfSize
      in if radius < 0 then Inl IndexSizeError
         else Inr (context\<lparr>shadowOffsetX := size, shadowOffsetY := size,
                           shadowBlur := blur, shadowColor := ''#000'',
                           arc_x := center, arc_y := center, arc_radius := radius\<rparr>))"

type_synonym color_stops = "(real \<times> string) list"

fun addColorStop :: "jsnum \<Rightarrow> string \<Rightarrow> color_stops \<Rightarrow> error + color_stops" where
  \<comment> \<open>\<open>CanvasGradient.addColorStop\<close>: a non-finite offset is a TypeError, an offset
      outside [0, 1] an IndexSizeError.  Colour strings are taken to be valid CSS colours.\<close>
  "addColorStop (Fin x) color stops =
     (if 0 \<le> x \<and> x \<le> 1 then Inr (stops @ [(x, color)]) else Inl IndexSizeError)"
| "addColorStop v color stops = Inl TypeError"

fun add_stops :: "jsnum \<Rightarrow> nat \<Rightarrow> string list \<Rightarrow> color_stops \<Rightarrow> error + color_stops" where
  \<comment> \<open>\<open>for (let i = 0, ii = colors.length; i < ii; ++i) gradient.addColorStop(i * step, colors[i])\<close>,
      from index \<open>i\<close> on.\<close>
  "add_stops step i [] stops = Inr stops"
| "add_stops step i (c # cs) stops =
     (case addColorStop (js_mul (real i) step) c stops of
        Inl e \<Rightarrow> Inl e
      | Inr stops' \<Rightarrow> add_stops step (Suc i) cs stops')"

datatype image_data = LinearGradientFill color_stops
  \<comment> \<open>the bytes read back from the 1 x 256 canvas after it was filled with the linear
      gradient that has these stops\<close>

definition createGradient :: "string list \<Rightarrow> error + image_data" where
  "createGradient colors =
     (let step = js_div 1 (real (length colors) - 1)
      in case add_stops step 0 colors [] of
           Inl e \<Rightarrow> Inl e
         | Inr gradient \<Rightarrow> Inr (LinearGradientFill gradient))"

section \<open>Coarsening the features into grid cells (handleRender_, lines 313-382)\<close>

type_synonym point = "int \<times> int \<times> jsnum"   \<comment> \<open>\<open>[px, py, weight]\<close>\<close>

text \<open>
  A JavaScript array used sparsely: \<open>length\<close> is one more than the largest array index
  that was assigned; an assignment at a key that is not an array index (a negative
  number here) creates a property and leaves \<open>length\<close> alone.
\<close>

record 'a jsarray =
  alength :: nat
  elems :: "int \<Rightarrow> 'a option"

definition arr_empty :: "'a jsarray" where
  "arr_empty = \<lparr>alength = 0, elems = (\<lambda>_. None)\<rparr>"

definition is_index :: "int \<Rightarrow> bool" where
  "is_index k \<longleftrightarrow> 0 \<le> k \<and> k < 2 ^ 32 - 1"

definition arr_set :: "'a jsarray \<Rightarrow> int \<Rightarrow> 'a \<Rightarrow> 'a jsarray" where
  "arr_set a k v =
     \<lparr>alength = (if is_index k then max (alength a) (nat k + 1) else alength a),
      elems = (elems a)(k \<mapsto> v)\<rparr>"

type_synonym grid = "point jsarray jsarray"

definition transform2D :: "coordinate \<Rightarrow> real \<times> real \<times> real \<times> real \<times> real \<times> real \<Rightarrow> coordinate" where
  \<comment> \<open>Modelled from the spec: \<open>transform2D\<close> of \<open>ol/geom/flat/transform.js\<close> is imported
      and not part of the sources; the spec has it "transform to device-pixel coordinates
      via the supplied affine transform".  Called with offset 0, end 1 and stride 1 it
      transforms the one coordinate pair.\<close>
  "transform2D coord t =
     (case (coord, t) of ((x, y), (t0, t1, t2, t3, t4, t5)) \<Rightarrow>
        (t0 * x + t2 * y + t4, t1 * x + t3 * y + t5))"

definition cell_of :: "int \<Rightarrow> point \<Rightarrow> int \<times> int" where
  \<comment> \<open>\<open>(cy, cx)\<close> with \<open>cx = Math.floor(px / cellSize)\<close> and \<open>cy = Math.floor(py / cellSize)\<close>\<close>
  "cell_of cellSize p =
     (case p of (px, py, weight) \<Rightarrow>
        (\<lfloor>real_of_int py / real_of_int cellSize\<rfloor>, \<lfloor>real_of_int px / real_of_int cellSize\<rfloor>))"

definition place :: "int \<Rightarrow> point \<Rightarrow> grid \<Rightarrow> grid" where
  \<comment> \<open>Lines 352-365.  A stored cell is an array and so always truthy; overwriting its
      three entries is modelled by storing the new triple.  The test of line 360 is on
      doubles, and false when either weight is NaN.\<close>
  "place cellSize p xyz =
     (case cell_of cellSize p of (cy, cx) \<Rightarrow>
        let row = (case elems xyz cy of None \<Rightarrow> arr_empty | Some r \<Rightarrow> r);
            row' = (case elems row cx of
                      None \<Rightarrow> arr_set row cx p
                    | Some cell \<Rightarrow>
                        if js_gt (Math_abs (fsub (snd (snd p)) (Fin 0.5)))
                                 (Math_abs (fsub (snd (snd cell)) (Fin 0.5)))
                        then arr_set row cx p else row)
        in arr_set xyz cy row')"

fun bucket :: "hilomap \<Rightarrow> frame_state \<Rightarrow> int \<Rightarrow> feature list \<Rightarrow> grid \<Rightarrow> error + grid" where
  \<comment> \<open>The loop over the features, lines 341-367.  \<open>feature.getGeometry().getCoordinates()\<close>
      is evaluated before the extent test, so a feature without geometry raises.  The
      counter \<open>numPointsInExtent\<close> is written and never read; it is left out.\<close>
  "bucket this fs cellSize [] xyz = Inr xyz"
| "bucket this fs cellSize (feature # features) xyz =
     (case getGeometry feature of
        None \<Rightarrow> Inl TypeError
      | Some coord \<Rightarrow>
          (case extent fs of (x0, y0, x1, y1) \<Rightarrow>
             if fst coord < x0 \<or> snd coord < y0 \<or> fst coord > x1 \<or> snd coord > y1
             then bucket this fs cellSize features xyz
             else
               let grid_coord = transform2D coord (coordinateToPixelTransform fs);
                   px = Math_round (fst grid_coord * pixelRatio fs);
                   py = Math_round (snd grid_coord * pixelRatio fs);
                   weight = this_weight this feature
               in bucket this fs cellSize features (place cellSize (px, py, weight) xyz)))"

definition row_points :: "point jsarray \<Rightarrow> point list" where
  \<comment> \<open>The inner loop of lines 374-379.\<close>
  "row_points row =
     concat (map (\<lambda>j. case elems row (int j) of
                         None \<Rightarrow> []
                       | Some p \<Rightarrow>
                           [(Math_round (real_of_int (fst p)),
                             Math_round (real_of_int (fst (snd p))),
                             clamp_num (snd (snd p)) 0 1)])
                 [0..<alength row])"

definition get_pointset :: "grid \<Rightarrow> point list" where
  \<comment> \<open>Lines 370-380: rows and cells are visited by index from 0 to \<open>length\<close>.\<close>
  "get_pointset xyz =
     concat (map (\<lambda>i. case elems xyz (int i) of
                         None \<Rightarrow> []
                       | Some row \<Rightarrow> row_points row)
                 [0..<alength xyz])"


section \<open>The three drawing passes (handleRender_, lines 389-440)\<close>

definition low_step ::
  "compositor \<Rightarrow> circle_context \<Rightarrow> real \<Rightarrow> point \<Rightarrow> context2d \<times> point list \<Rightarrow> context2d \<times> point list" where
  \<comment> \<open>Round 1, one point; the state is the context and \<open>hipoints\<close>.  The paint opacity
      is \<open>(0.5 - p[2]) * 2\<close>.\<close>
  "low_step blend circleImage radius p s =
     (case s of (ctx, hipoints) \<Rightarrow>
        if js_le (snd (snd p)) (Fin 0.5)
        then (drawImage blend circleImage
                (real_of_int (fst p) - radius) (real_of_int (fst (snd p)) - radius)
                (set_globalAlpha (js_mul 2 (js_minus (Fin 0.5) (snd (snd p)))) ctx),
              hipoints)
        else (ctx, hipoints @ [p]))"

definition high_step ::
  "compositor \<Rightarrow> circle_context \<Rightarrow> real \<Rightarrow> point \<Rightarrow> context2d \<Rightarrow> context2d" where
  \<comment> \<open>Round 2, one point of \<open>hipoints\<close>, with paint opacity \<open>(p[2] - 0.5) * 2\<close>.\<close>
  "high_step blend circleImage radius p ctx =
     drawImage blend circleImage
       (real_of_int (fst p) - radius) (real_of_int (fst (snd p)) - radius)
       (set_globalAlpha (js_mul 2 (js_minus (snd (snd p)) (Fin 0.5))) ctx)"

definition final_step ::
  "compositor \<Rightarrow> circle_context \<Rightarrow> real \<Rightarrow> point \<Rightarrow> context2d \<Rightarrow> context2d" where
  \<comment> \<open>The final round, one point of \<open>pointset\<close>.\<close>
  "final_step blend circleImage radius p ctx =
     drawImage blend circleImage
       (real_of_int (fst p) - radius) (real_of_int (fst (snd p)) - radius)
       (set_globalAlpha
          (if js_le (snd (snd p)) (Fin 0.5)
           then js_mul 2 (js_minus (Fin 0.5) (snd (snd p)))
           else js_mul 2 (js_minus (snd (snd p)) (Fin 0.5))) ctx)"

definition copy_alpha :: "int list \<Rightarrow> int list \<Rightarrow> int list" where
  \<comment> \<open>\<open>for (let i = 0, len = src.length; i < len; i += 4) dst[i + 3] = src[i + 3]\<close>\<close>
  "copy_alpha src dst =
     fold (\<lambda>i a. a[i + 3 := store8 (src ! (i + 3))]) (for4 (length src)) dst"

definition composite ::
  "compositor \<Rightarrow> circle_context \<Rightarrow> real \<Rightarrow> point list \<Rightarrow> context2d
     \<Rightarrow> int list \<times> int list \<times> context2d" where
  \<comment> \<open>Lines 391-440; the result is \<open>(loA, hiA, context)\<close>.\<close>
  "composite blend circleImage radius pointset ctx0 =
     (let ctx1 = clearRect ctx0;
          (ctx2, hipoints) = fold (low_step blend circleImage radius) pointset (ctx1, []);
          loA0 = replicate (width ctx2 * height ctx2 * 4) 0;
          (loImg, ctx3) = getImageData ctx2;
          loA = copy_alpha loImg loA0;
          ctx4 = clearRect ctx3;
          ctx5 = fold (high_step blend circleImage radius) hipoints ctx4;
          hiA0 = replicate (width ctx5 * height ctx5 * 4) 0;
          (hiImg, ctx6) = getImageData ctx5;
          hiA = copy_alpha hiImg hiA0;
          ctx7 = clearRect ctx6;
          ctx8 = fold (final_step blend circleImage radius) pointset ctx7
      in (loA, hiA, ctx8))"

definition rasterize ::
  "compositor \<Rightarrow> circle_context \<Rightarrow> int list \<Rightarrow> real \<Rightarrow> point list \<Rightarrow> context2d
     \<Rightarrow> int list \<times> context2d" where
  \<comment> \<open>The body of \<open>if (pointset.length > 0)\<close>: the passes, then the colour lookup and the
      rescale on the bytes read back; the result is \<open>(image, context)\<close>.\<close>
  "rasterize blend circleImage gradient radius pointset ctx =
     (case composite blend circleImage radius pointset ctx of
        (loA, hiA, ctx8) \<Rightarrow>
          (case getImageData ctx8 of
             (img, ctx9) \<Rightarrow> (resolve gradient hiA loA img, ctx9)))"

section \<open>The render handler\<close>

definition zoom :: "hilomap \<Rightarrow> real \<Rightarrow> hilomap \<times> real" where
  \<comment> \<open>Lines 296-303: the first resolution seen becomes the base line; the result is the
      layer and \<open>zoomRatio\<close>.\<close>
  "zoom this newResolution =
     (let this' = (case this_baseResolution this of
                     None \<Rightarrow> this\<lparr>this_baseResolution := Some newResolution\<rparr>
                   | Some b \<Rightarrow> this);
          base = (case this_baseResolution this of None \<Rightarrow> newResolution | Some b \<Rightarrow> b);
          zoomRatio = (if \<bar>newResolution - base\<bar> > 0.00001
                       then base * 1.0 / newResolution else 1)
      in (this', zoomRatio))"

definition cell_size :: "real \<Rightarrow> int" where
  \<comment> \<open>\<open>let cellSize = Math.round(radius / 2); cellSize = (cellSize == 0) ? 1 : cellSize\<close>\<close>
  "cell_size radius = (let cellSize = Math_round (radius / 2) in if cellSize = 0 then 1 else cellSize)"

definition coarsen :: "hilomap \<Rightarrow> frame_state \<Rightarrow> int \<Rightarrow> vector_source \<Rightarrow> error + point list" where
  \<comment> \<open>Lines 335-382: \<open>pointset\<close> stays empty when \<open>getFeatures()\<close> is undefined.\<close>
  "coarsen this fs cellSize src =
     (case getFeatures src of
        None \<Rightarrow> Inr []
      | Some features \<Rightarrow>
          (case bucket this fs cellSize features arr_empty of
             Inl e \<Rightarrow> Inl e
           | Inr xyz \<Rightarrow> Inr (get_pointset xyz)))"

definition collect ::
  "hilomap \<Rightarrow> frame_state \<Rightarrow> error + hilomap \<times> circle_context \<times> real \<times> point list option" where
  \<comment> \<open>\<open>handleRender_\<close> up to line 387: the layer with its base resolution set, the
      stamp, the stamp offset \<open>radius\<close> and \<open>pointset\<close>; no point set (\<open>None\<close>) when the
      handler returns at line 333 because the frame has no visible Hilomap layer.\<close>
  "collect this fs =
     (case zoom this (resolution fs) of
        (this', zoomRatio) \<Rightarrow>
          (case createCircle this' (pixelRatio fs * zoomRatio) of
             Inl e \<Rightarrow> Inl e
           | Inr circleImage \<Rightarrow>
               (let radius = (getRadius this' + getBlur this' + 1) * pixelRatio fs * zoomRatio;
                    cellSize = cell_size radius
                in (case find (\<lambda>l. is_hilomap l \<and> getVisible l) (layerStatesArray fs) of
                      None \<Rightarrow> Inr (this', circleImage, radius, None)
                    | Some layer \<Rightarrow>
                        (case getSource layer of
                           None \<Rightarrow> Inl TypeError
                         | Some src \<Rightarrow>
                             (case coarsen this' fs cellSize src of
                                Inl e \<Rightarrow> Inl e
                              | Inr pointset \<Rightarrow>
                                  Inr (this', circleImage, radius, Some pointset)))))))"

definition handleRender ::
  "compositor \<Rightarrow> hilomap \<Rightarrow> render_event \<Rightarrow> error + hilomap \<times> context2d" where
  \<comment> \<open>\<open>handleRender_\<close>.  \<open>Inl\<close> is an exception leaving the handler: the source has no
      \<open>try\<close>.  \<open>Inr\<close> is a normal return, with the layer and the context as they are then.\<close>
  "handleRender blend this event =
     (let ctx = event_context event
      in case collect this (frameState event) of
           Inl e \<Rightarrow> Inl e
         | Inr (this', circleImage, radius, None) \<Rightarrow> Inr (this', ctx)
         | Inr (this', circleImage, radius, Some pointset) \<Rightarrow>
             if length pointset > 0
             then (case rasterize blend circleImage (this_gradient this') radius pointset ctx of
                     (imagedata, ctx') \<Rightarrow> Inr (this', putImageData imagedata ctx'))
             else Inr (this', ctx))"

section \<open>Auxiliary definitions for the statements and their instances\<close>

definition colored :: "int list \<Rightarrow> int list \<Rightarrow> int list \<Rightarrow> int list \<Rightarrow> nat \<Rightarrow> nat \<Rightarrow> int" where
  \<comment> \<open>Byte \<open>j\<close> of the image after the colour loop has handled the first \<open>m\<close> pixels.\<close>
  "colored g hiA loA img m j =
     (let w = signed_weight hiA loA (4 * (j div 4)) in
      if j < 4 * m \<and> j mod 4 \<noteq> 3 \<and> w \<noteq> 0
      then store8 (g ! (nat (w * 4) + j mod 4)) else img ! j)"

definition example_gradient :: "int list" where
  \<comment> \<open>A table of 256 RGBA entries whose byte \<open>i\<close> is \<open>i mod 256\<close>.\<close>
  "example_gradient = map (\<lambda>i. int (i mod 256)) [0..<1024]"

definition example_layer :: hilomap where
  "example_layer =
     \<lparr>getRadius = 5, getBlur = 5, this_gradient = example_gradient, this_shadow = 250,
      this_baseResolution = None, this_weight = get_weight\<rparr>"

definition lookup :: "grid \<Rightarrow> int \<times> int \<Rightarrow> point option" where
  \<comment> \<open>\<open>xyz[cy][cx]\<close> for the cell \<open>(cy, cx)\<close>, \<open>None\<close> when the row or the cell is missing.\<close>
  "lookup xyz c = (case elems xyz (fst c) of None \<Rightarrow> None | Some row \<Rightarrow> elems row (snd c))"

definition midpoint_distance :: "point \<Rightarrow> jsnum" where
  \<comment> \<open>\<open>Math.abs(weight - 0.5)\<close> as line 360 computes it.\<close>
  "midpoint_distance p = Math_abs (fsub (snd (snd p)) (Fin 0.5))"

definition keep :: "point \<Rightarrow> point option \<Rightarrow> point option" where
  \<comment> \<open>What lines 356-365 do to the cell a point falls into.\<close>
  "keep p cell =
     (case cell of
        None \<Rightarrow> Some p
      | Some q \<Rightarrow> if js_gt (midpoint_distance p) (midpoint_distance q) then Some p else Some q)"

definition feature_at :: "real \<Rightarrow> real \<Rightarrow> real \<Rightarrow> feature" where
  "feature_at x y w = \<lparr>getGeometry = Some (x, y), attr_weight = Some w\<rparr>"

definition hilo_layer :: "feature list \<Rightarrow> layer_state" where
  \<comment> \<open>A visible Hilomap layer whose source holds the given features.\<close>
  "hilo_layer fts =
     \<lparr>is_hilomap = True, getVisible = True, getSource = Some \<lparr>getFeatures = Some fts\<rparr>\<rparr>"

definition example_frame :: "layer_state list \<Rightarrow> frame_state" where
  \<comment> \<open>World coordinates are device pixels: identity transform, pixel ratio 1.\<close>
  "example_frame layers =
     \<lparr>resolution = 1, extent = (0, 0, 100, 100), pixelRatio = 1,
      coordinateToPixelTransform = (1, 0, 0, 1, 0, 0), layerStatesArray = layers\<rparr>"

definition example_context :: context2d where
  "example_context =
     \<lparr>width = 1, height = 2, data = [1, 2, 3, 4, 5, 6, 7, 8], globalAlpha = 1, calls = []\<rparr>"

definition example_blend :: compositor where
  \<comment> \<open>A stand-in for the browser's blending: every byte of the canvas grows by one.\<close>
  "example_blend stamp alpha dx dy w h d = map (\<lambda>v. min 255 (v + 1)) d"

definition missing_data :: "frame_state \<Rightarrow> bool" where
  \<comment> \<open>The first visible Hilomap layer of the frame has no source, or one of its features
      has no geometry.\<close>
  "missing_data fs =
     (case find (\<lambda>l. is_hilomap l \<and> getVisible l) (layerStatesArray fs) of
        None \<Rightarrow> False
      | Some layer \<Rightarrow>
          (case getSource layer of
             None \<Rightarrow> True
           | Some src \<Rightarrow>
               (case getFeatures src of
                  None \<Rightarrow> False
                | Some features \<Rightarrow> list_ex (\<lambda>f. getGeometry f = None) features)))"

definition numeric :: "int \<times> int \<times> real \<Rightarrow> point" where
  \<comment> \<open>A point whose weight is a number.\<close>
  "numeric p = (fst p, fst (snd p), Fin (snd (snd p)))"

definition stamped ::
  "compositor \<Rightarrow> circle_context \<Rightarrow> real \<Rightarrow> (int \<times> int \<times> real \<Rightarrow> real) \<Rightarrow> nat \<Rightarrow> nat
     \<Rightarrow> (int \<times> int \<times> real) list \<Rightarrow> int list" where
  \<comment> \<open>The bytes of a cleared canvas of \<open>w\<close> by \<open>h\<close> pixels after the points were stamped
      onto it in order, each with the paint opacity that \<open>opacity\<close> gives it and with the
      stamp's top-left corner at \<open>(p[0] - radius, p[1] - radius)\<close>.\<close>
  "stamped blend stamp radius opacity w h pts =
     fold (\<lambda>p. blend stamp (opacity p) (real_of_int (fst p) - radius)
                  (real_of_int (fst (snd p)) - radius) w h)
          pts (replicate (w * h * 4) 0)"

definition alpha_channel :: "int list \<Rightarrow> int list" where
  \<comment> \<open>The alpha bytes of an RGBA byte array, on transparent black.\<close>
  "alpha_channel d = map (\<lambda>j. if j mod 4 = 3 then store8 (d ! j) else 0) [0..<length d]"

definition stamp_call :: "real \<Rightarrow> real \<Rightarrow> int \<times> int \<times> 'a \<Rightarrow> call" where
  \<comment> \<open>The \<open>drawImage\<close> call that stamps point \<open>p\<close> with paint opacity \<open>alpha\<close>: the
      stamp's top-left corner is at \<open>(p[0] - radius, p[1] - radius)\<close>.\<close>
  "stamp_call radius alpha p =
     DrawImage alpha (real_of_int (fst p) - radius) (real_of_int (fst (snd p)) - radius)"

definition example_circle :: circle_context where
  \<comment> \<open>The stamp of \<open>example_layer\<close> at scale 1.\<close>
  "example_circle =
     \<lparr>circle_width = 22, circle_height = 22, shadowOffsetX = 22, shadowOffsetY = 22,
      shadowBlur = 5, shadowColor = ''#000'', arc_x = - 11, arc_y = - 11, arc_radius = 5\<rparr>"

definition covering_blend :: compositor where
  \<comment> \<open>A stamp whose opaque disc covers the whole canvas, blended source-over: the alpha
      byte of every pixel becomes \<open>255 * alpha + old * (1 - alpha)\<close>, rounded.\<close>
  "covering_blend stamp alpha dx dy w h d =
     map (\<lambda>i. if i mod 4 = 3
               then Math_round (255 * alpha + real_of_int (d ! i) * (1 - alpha))
               else d ! i) [0..<length d]"

definition wide_layer :: hilomap where
  \<comment> \<open>A layer whose disc of radius 50, without blur, covers the two pixels of
      \<open>example_context\<close> from every point used below.\<close>
  "wide_layer = example_layer\<lparr>getRadius := 50, getBlur := 0\<rparr>"

definition wide_circle :: circle_context where
  \<comment> \<open>The stamp of \<open>wide_layer\<close> at scale 1.\<close>
  "wide_circle =
     \<lparr>circle_width = 102, circle_height = 102, shadowOffsetX = 102, shadowOffsetY = 102,
      shadowBlur = 0, shadowColor = ''#000'', arc_x = - 51, arc_y = - 51, arc_radius = 50\<rparr>"

section \<open>Evaluating the definitions at concrete inputs\<close>

lemma doublings_numeral:
  "doublings (numeral k) x = (if x < 1 then Suc (doublings (pred_numeral k) (2 * x)) else 0)"
  by (simp add: numeral_eq_Suc)

lemma halvings_numeral:
  "halvings (numeral k) x = (if 2 \<le> x then Suc (halvings (pred_numeral k) (x / 2)) else 0)"
  by (simp add: numeral_eq_Suc)

lemmas binary64_eval =
  binary64_def exponent_def pow2_def round_even_def doublings_numeral halvings_numeral Let_def

lemmas grid_eval =
  coarsen_def transform2D_def Math_round_def place_def cell_of_def arr_set_def arr_empty_def
  is_index_def get_pointset_def row_points_def clamp_def feature_at_def example_frame_def
  example_layer_def get_weight_def fsub_def binary64_eval


section \<open>The colour loop\<close>

lemma for4_mult: "for4 (4 * n) = map (\<lambda>k. 4 * k) [0..<n]"
  by (simp add: for4_def)

lemma signed_weight_range: "0 \<le> signed_weight hiA loA i \<and> signed_weight hiA loA i \<le> 255"
  by (simp add: signed_weight_def clamp_def)

lemma store8_byte: "0 \<le> v \<Longrightarrow> v \<le> 255 \<Longrightarrow> store8 v = v"
  by (auto simp: store8_def Let_def)

lemma Min_step:
  fixes w :: int
  assumes "finite A"
  shows "(if w < Min (insert mn A) then w else Min (insert mn A)) = Min (insert mn (insert w A))"
proof -
  define M where "M = Min (insert mn A)"
  have "Min (insert w (insert mn A)) = min w M"
    unfolding M_def using assms by (intro Min_insert) auto
  then have "Min (insert mn (insert w A)) = min w M"
    by (simp only: insert_commute)
  then show ?thesis unfolding M_def[symmetric] by (simp only: min_def) auto
qed

lemma Max_step:
  fixes w :: int
  assumes "finite A"
  shows "(if w > Max (insert mx A) then w else Max (insert mx A)) = Max (insert mx (insert w A))"
proof -
  define M where "M = Max (insert mx A)"
  have "Max (insert w (insert mx A)) = max w M"
    unfolding M_def using assms by (intro Max_insert) auto
  then have "Max (insert mx (insert w A)) = max w M"
    by (simp only: insert_commute)
  then show ?thesis unfolding M_def[symmetric] by (simp only: max_def) auto
qed

lemma color_fold_inv:
  assumes len: "length img = 4 * n"
  shows "m \<le> n \<Longrightarrow>
     (case fold (color_step g hiA loA) (map (\<lambda>k. 4 * k) [0..<m]) (img, mn, mx) of
        (img', wMin, wMax) \<Rightarrow>
          length img' = 4 * n \<and>
          (\<forall>j<4 * n. img' ! j = colored g hiA loA img m j) \<and>
          wMin = Min (insert mn ((\<lambda>k. signed_weight hiA loA (4 * k)) ` {..<m})) \<and>
          wMax = Max (insert mx ((\<lambda>k. signed_weight hiA loA (4 * k)) ` {..<m})))"
proof (induction m)
  case 0
  then show ?case by (simp add: len colored_def)
next
  case (Suc m)
  obtain im mi ma where f: "fold (color_step g hiA loA) (map (\<lambda>k. 4 * k) [0..<m]) (img, mn, mx) = (im, mi, ma)"
    by (cases "fold (color_step g hiA loA) (map (\<lambda>k. 4 * k) [0..<m]) (img, mn, mx)") auto
  from Suc f have L: "length im = 4 * n"
    and P: "\<And>j. j < 4 * n \<Longrightarrow> im ! j = colored g hiA loA img m j"
    and mi: "mi = Min (insert mn ((\<lambda>k. signed_weight hiA loA (4 * k)) ` {..<m}))"
    and ma: "ma = Max (insert mx ((\<lambda>k. signed_weight hiA loA (4 * k)) ` {..<m}))"
    by auto
  let ?w = "signed_weight hiA loA (4 * m)"
  let ?S = "(\<lambda>k. signed_weight hiA loA (4 * k)) ` {..<m}"
  have S': "(\<lambda>k. signed_weight hiA loA (4 * k)) ` {..<Suc m} = insert ?w ?S"
    by (simp add: lessThan_Suc)
  have mi': "(if ?w < mi then ?w else mi) = Min (insert mn (insert ?w ?S))"
    unfolding mi by (rule Min_step) simp
  have ma': "(if ?w > ma then ?w else ma) = Max (insert mx (insert ?w ?S))"
    unfolding ma by (rule Max_step) simp
  have m4: "4 * m + 3 < 4 * n" using Suc.prems by simp
  have img': "\<And>j. j < 4 * n \<Longrightarrow>
      (if nat (?w * 4) \<noteq> 0
       then im[4 * m := store8 (g ! nat (?w * 4)),
               4 * m + 1 := store8 (g ! (nat (?w * 4) + 1)),
               4 * m + 2 := store8 (g ! (nat (?w * 4) + 2))]
       else im) ! j = colored g hiA loA img (Suc m) j"
  proof -
    fix j assume j: "j < 4 * n"
    have w0: "nat (?w * 4) \<noteq> 0 \<longleftrightarrow> ?w \<noteq> 0"
      using signed_weight_range[of hiA loA "4 * m"] by auto
    consider (lt) "j div 4 < m" | (eq) "j div 4 = m" | (gt) "j div 4 > m" by linarith
    then show "?thesis j"
    proof cases
      case lt
      then have "j < 4 * m" by simp
      then show ?thesis using P[OF j] L j by (simp add: colored_def Let_def)
    next
      case gt
      then have "j > 4 * m + 3" by simp
      then show ?thesis using P[OF j] L j by (simp add: colored_def Let_def)
    next
      case eq
      then have jm: "j = 4 * m + j mod 4" by (metis mult_div_mod_eq)
      have "j mod 4 = 0 \<or> j mod 4 = 1 \<or> j mod 4 = 2 \<or> j mod 4 = 3" by presburger
      then show ?thesis
        using P[OF j] L j eq m4 w0 jm
        by (auto simp: colored_def Let_def)
    qed
  qed
  have step: "fold (color_step g hiA loA) (map (\<lambda>k. 4 * k) [0..<Suc m]) (img, mn, mx)
      = color_step g hiA loA (4 * m) (im, mi, ma)"
    using f by simp
  have len': "length (if nat (?w * 4) \<noteq> 0
       then im[4 * m := store8 (g ! nat (?w * 4)),
               4 * m + 1 := store8 (g ! (nat (?w * 4) + 1)),
               4 * m + 2 := store8 (g ! (nat (?w * 4) + 2))]
       else im) = 4 * n"
    using L by simp
  show ?case
    apply (simp only: step)
    apply (simp only: color_step_def Let_def prod.case S')
    using len' img' mi' ma' apply blast
    done
qed

lemma color_pass_inv:
  assumes "length img = 4 * n"
  shows "case color_pass g hiA loA img of
        (img', wMin, wMax) \<Rightarrow>
          length img' = 4 * n \<and>
          (\<forall>j<4 * n. img' ! j = colored g hiA loA img n j) \<and>
          wMin = Min (insert 255 ((\<lambda>k. signed_weight hiA loA (4 * k)) ` {..<n})) \<and>
          wMax = Max (insert 0 ((\<lambda>k. signed_weight hiA loA (4 * k)) ` {..<n}))"
  unfolding color_pass_def assms for4_mult
  by (rule color_fold_inv[OF assms]) simp

lemma Min_insert_255:
  fixes S :: "int set"
  assumes "finite S" "S \<noteq> {}" "\<forall>x\<in>S. x \<le> 255"
  shows "Min (insert 255 S) = Min S"
proof -
  have "Min S \<in> S" using assms by (intro Min_in)
  then have "Min S \<le> 255" using assms by blast
  moreover have "Min (insert 255 S) = min 255 (Min S)" using assms by (intro Min_insert)
  ultimately show ?thesis by simp
qed

lemma Max_insert_0:
  fixes S :: "int set"
  assumes "finite S" "S \<noteq> {}" "\<forall>x\<in>S. 0 \<le> x"
  shows "Max (insert 0 S) = Max S"
proof -
  have "Max S \<in> S" using assms by (intro Max_in)
  then have "0 \<le> Max S" using assms by blast
  moreover have "Max (insert 0 S) = max 0 (Max S)" using assms by (intro Max_insert)
  ultimately show ?thesis by simp
qed

lemma upt_0_2: "[0..<2] = [0, 1]"
  by (simp add: upt_rec)


text \<open>
  C5.  For an image of \<open>n\<close> pixels with alpha buffers of the same size and a gradient
  table of 256 RGBA byte entries, the first loop leaves, for every pixel \<open>k\<close>, with
  \<open>signed = clamp(round(128 + (highAlpha - lowAlpha) / 2), 0, 255)\<close>: the alpha byte
  unchanged, and each of the three colour bytes equal to the gradient entry at index
  \<open>signed\<close> exactly when \<open>signed\<close> is not zero (and unchanged otherwise); and for a
  non-empty image \<open>wMin\<close> and \<open>wMax\<close> are the least and the greatest \<open>signed\<close> value
  over all pixels.
\<close>

theorem color_pass_correct:
  assumes "length img = 4 * n" and "length hiA = 4 * n" and "length loA = 4 * n"
    and "length gradient = 1024" and "\<forall>v\<in>set gradient. 0 \<le> v \<and> v \<le> 255"
  shows "case color_pass gradient hiA loA img of
     (img', wMin, wMax) \<Rightarrow>
       length img' = length img \<and>
       (\<forall>k<n. let signed = clamp (Math_round (128 + (real_of_int (hiA ! (4 * k + 3))
                                   - real_of_int (loA ! (4 * k + 3))) / 2)) 0 255
              in img' ! (4 * k + 3) = img ! (4 * k + 3) \<and>
                 (\<forall>c<3. img' ! (4 * k + c) =
                    (if signed \<noteq> 0 then gradient ! (nat (signed * 4) + c) else img ! (4 * k + c)))) \<and>
       (0 < n \<longrightarrow>
          wMin = Min ((\<lambda>k. signed_weight hiA loA (4 * k)) ` {..<n}) \<and>
          wMax = Max ((\<lambda>k. signed_weight hiA loA (4 * k)) ` {..<n}))"
proof -
  obtain img' wMin wMax where r: "color_pass gradient hiA loA img = (img', wMin, wMax)"
    by (cases "color_pass gradient hiA loA img") auto
  let ?W = "\<lambda>k. signed_weight hiA loA (4 * k)"
  from color_pass_inv[OF assms(1), of gradient hiA loA] r
  have L: "length img' = 4 * n"
    and P: "\<And>j. j < 4 * n \<Longrightarrow> img' ! j = colored gradient hiA loA img n j"
    and mi: "wMin = Min (insert 255 (?W ` {..<n}))"
    and ma: "wMax = Max (insert 0 (?W ` {..<n}))"
    by auto
  have pix: "img' ! (4 * k + 3) = img ! (4 * k + 3) \<and>
        (\<forall>c<3. img' ! (4 * k + c) =
            (if ?W k \<noteq> 0 then gradient ! (nat (?W k * 4) + c) else img ! (4 * k + c)))"
    if k: "k < n" for k
  proof (intro conjI allI impI)
    have "4 * k + 3 < 4 * n" using k by simp
    then show "img' ! (4 * k + 3) = img ! (4 * k + 3)"
      by (simp add: P colored_def)
  next
    fix c :: nat assume c: "c < 3"
    have j: "4 * k + c < 4 * n" using k c by simp
    have d: "(4 * k + c) div 4 = k" "(4 * k + c) mod 4 = c" using c by simp_all
    have rng: "0 \<le> ?W k" "?W k \<le> 255" using signed_weight_range[of hiA loA "4 * k"] by simp_all
    then have "nat (?W k * 4) + c < 1024" using c by linarith
    then have "gradient ! (nat (?W k * 4) + c) \<in> set gradient"
      using assms(4) by simp
    then have "store8 (gradient ! (nat (?W k * 4) + c)) = gradient ! (nat (?W k * 4) + c)"
      using assms(5) by (intro store8_byte) auto
    then show "img' ! (4 * k + c) =
        (if ?W k \<noteq> 0 then gradient ! (nat (?W k * 4) + c) else img ! (4 * k + c))"
      using c k by (simp add: P[OF j] colored_def d Let_def)
  qed
  have mm: "wMin = Min (?W ` {..<n}) \<and> wMax = Max (?W ` {..<n})" if "0 < n"
  proof -
    have ne: "?W ` {..<n} \<noteq> {}" using that by auto
    have "Min (insert 255 (?W ` {..<n})) = Min (?W ` {..<n})"
      using ne signed_weight_range by (intro Min_insert_255) auto
    moreover have "Max (insert 0 (?W ` {..<n})) = Max (?W ` {..<n})"
      using ne signed_weight_range by (intro Max_insert_0) auto
    ultimately show ?thesis using mi ma by simp
  qed
  show ?thesis
    unfolding r prod.case Let_def
    using L assms(1) pix mm by (simp add: signed_weight_def)
qed

theorem color_pass_correct_witness:
  "length [10, 20, 30, 40, 50, 60, 70, 80 :: int] = 4 * 2 \<and>
   length example_gradient = 1024 \<and>
   color_pass example_gradient [0, 0, 0, 255, 0, 0, 0, 0] [0, 0, 0, 0, 0, 0, 0, 255]
           [10, 20, 30, 40, 50, 60, 70, 80] = ([252, 253, 254, 40, 4, 5, 6, 80], 1, 255) \<and>
   (case color_pass example_gradient [0, 0, 0, 255, 0, 0, 0, 0] [0, 0, 0, 0, 0, 0, 0, 255]
           [10, 20, 30, 40, 50, 60, 70, 80] of
     (img', wMin, wMax) \<Rightarrow>
       length img' = length [10, 20, 30, 40, 50, 60, 70, 80 :: int] \<and>
       (\<forall>k<2. let signed = clamp (Math_round (128 + (real_of_int ([0, 0, 0, 255, 0, 0, 0, 0] ! (4 * k + 3))
                                   - real_of_int ([0, 0, 0, 0, 0, 0, 0, 255] ! (4 * k + 3))) / 2)) 0 255
              in img' ! (4 * k + 3) = [10, 20, 30, 40, 50, 60, 70, 80] ! (4 * k + 3) \<and>
                 (\<forall>c<3. img' ! (4 * k + c) =
                    (if signed \<noteq> 0 then example_gradient ! (nat (signed * 4) + c)
                     else [10, 20, 30, 40, 50, 60, 70, 80] ! (4 * k + c)))) \<and>
       (0 < (2::nat) \<longrightarrow>
          wMin = Min ((\<lambda>k. signed_weight [0, 0, 0, 255, 0, 0, 0, 0] [0, 0, 0, 0, 0, 0, 0, 255] (4 * k)) ` {..<2}) \<and>
          wMax = Max ((\<lambda>k. signed_weight [0, 0, 0, 255, 0, 0, 0, 0] [0, 0, 0, 0, 0, 0, 0, 255] (4 * k)) ` {..<2})))"
proof -
  have h1: "length [10, 20, 30, 40, 50, 60, 70, 80 :: int] = 4 * 2" by simp
  have h2: "length [0, 0, 0, 255, 0, 0, 0, 0 :: int] = 4 * 2" by simp
  have h3: "length [0, 0, 0, 0, 0, 0, 0, 255 :: int] = 4 * 2" by simp
  have h4: "length example_gradient = 1024" by (simp add: example_gradient_def)
  have h5: "\<forall>v\<in>set example_gradient. 0 \<le> v \<and> v \<le> 255"
    by (auto simp: example_gradient_def)
  have v: "color_pass example_gradient [0, 0, 0, 255, 0, 0, 0, 0] [0, 0, 0, 0, 0, 0, 0, 255]
           [10, 20, 30, 40, 50, 60, 70, 80] = ([252, 253, 254, 40, 4, 5, 6, 80], 1, 255)"
    by (simp add: color_pass_def for4_def color_step_def signed_weight_def clamp_def
        Math_round_def store8_def example_gradient_def upt_0_2)
  show ?thesis
    using h1 h4 v color_pass_correct[OF h1 h2 h3 h4 h5] by blast
qed


section \<open>The size of the stamp\<close>







section \<open>The colour stops of the gradient\<close>

lemma add_stops_finite:
  assumes "\<forall>k<length cs. 0 \<le> real (i + k) * s \<and> real (i + k) * s \<le> 1"
  shows "add_stops (Fin s) i cs acc =
           Inr (acc @ map (\<lambda>k. (real (i + k) * s, cs ! k)) [0..<length cs])"
  using assms
proof (induction cs arbitrary: i acc)
  case Nil
  then show ?case by simp
next
  case (Cons c cs)
  from Cons.prems have h0: "0 \<le> real i * s \<and> real i * s \<le> 1" by force
  have hk: "\<forall>k<length cs. 0 \<le> real (Suc i + k) * s \<and> real (Suc i + k) * s \<le> 1"
  proof (intro allI impI)
    fix k assume "k < length cs"
    then have "Suc k < length (c # cs)" by simp
    with Cons.prems have "0 \<le> real (i + Suc k) * s \<and> real (i + Suc k) * s \<le> 1" by blast
    then show "0 \<le> real (Suc i + k) * s \<and> real (Suc i + k) * s \<le> 1" by simp
  qed
  have m: "map (\<lambda>k. (real (i + k) * s, (c # cs) ! k)) [0..<length (c # cs)]
        = (real i * s, c) # map (\<lambda>k. (real (Suc i + k) * s, cs ! k)) [0..<length cs]"
  proof -
    have "[0..<length (c # cs)] = 0 # map Suc [0..<length cs]"
      by (simp add: upt_conv_Cons map_Suc_upt del: upt_Suc)
    then show ?thesis by (simp add: comp_def algebra_simps)
  qed
  have step: "add_stops (Fin s) i (c # cs) acc = add_stops (Fin s) (Suc i) cs (acc @ [(real i * s, c)])"
    using h0 by simp
  show ?case
    unfolding step Cons.IH[OF hk] m by simp
qed

text \<open>
  C7, as the claim states it, fails for the empty list: nothing raises, and the table is
  read back from a gradient without stops.
\<close>

theorem createGradient_empty_counterexample:
  "createGradient [] = Inr (LinearGradientFill [])"
  by (simp add: createGradient_def)

text \<open>
  C7, amended.  A list of exactly one colour raises at build time (the offset
  \<open>0 * Infinity\<close> is NaN, which \<open>addColorStop\<close> rejects); every other list, the empty
  one included, returns the table filled from the gradient whose stop \<open>i\<close> of \<open>n\<close> is
  at \<open>i / (n - 1)\<close>.
\<close>

theorem createGradient_stops:
  "(length colors = 1 \<longrightarrow> createGradient colors = Inl TypeError) \<and>
   (length colors \<noteq> 1 \<longrightarrow>
      createGradient colors =
        Inr (LinearGradientFill
               (map (\<lambda>i. (real i / (real (length colors) - 1), colors ! i)) [0..<length colors])))"
proof (intro conjI impI)
  assume "length colors = 1"
  then obtain c where "colors = [c]" by (cases colors) auto
  then show "createGradient colors = Inl TypeError"
    by (simp add: createGradient_def js_div_def)
next
  assume n1: "length colors \<noteq> 1"
  let ?n = "length colors"
  let ?s = "1 / (real ?n - 1)"
  have step: "js_div 1 (real ?n - 1) = Fin ?s" using n1 by (simp add: js_div_def)
  have rng: "\<forall>k<?n. 0 \<le> real (0 + k) * ?s \<and> real (0 + k) * ?s \<le> 1"
  proof (intro allI impI)
    fix k assume k: "k < ?n"
    with n1 have "2 \<le> ?n" by linarith
    then have "0 < real ?n - 1" and "real k \<le> real ?n - 1" using k by auto
    then show "0 \<le> real (0 + k) * ?s \<and> real (0 + k) * ?s \<le> 1" by simp
  qed
  show "createGradient colors =
        Inr (LinearGradientFill (map (\<lambda>i. (real i / (real ?n - 1), colors ! i)) [0..<?n]))"
    unfolding createGradient_def Let_def step add_stops_finite[OF rng] by simp
qed

theorem createGradient_stops_witness:
  "createGradient [''#00f''] = Inl TypeError \<and>
   createGradient [''#00f'', ''#fff'', ''#f00''] =
     Inr (LinearGradientFill [(0, ''#00f''), (1 / 2, ''#fff''), (1, ''#f00'')])"
proof -
  have a: "length [''#00f''] = 1" by simp
  have b: "length [''#00f'', ''#fff'', ''#f00''] \<noteq> 1" by simp
  have u: "[0..<3] = [0, 1, 2]" by (simp add: upt_rec)
  show ?thesis
    using createGradient_stops[of "[''#00f'']"] createGradient_stops[of "[''#00f'', ''#fff'', ''#f00'']"]
    by (simp add: u)
qed


section \<open>The representative point of a grid cell\<close>

lemma binary64_half: "binary64 (1 / 2) = Fin (1 / 2)"
  by (simp add: binary64_eval)

lemma binary64_not_NaN: "binary64 x \<noteq> NaN"
  by (simp add: binary64_def Let_def)

lemma num64_NaN: "num64 v = NaN \<longleftrightarrow> v = NaN"
  by (cases v) (simp_all add: binary64_not_NaN)

lemma js_minus_half_NaN: "js_minus a (Fin h) = NaN \<longleftrightarrow> a = NaN"
  by (cases a) simp_all

lemma Math_abs_NaN: "Math_abs v = NaN \<longleftrightarrow> v = NaN"
  by (cases v) simp_all

lemma Math_abs_NegInf: "Math_abs v \<noteq> NegInf"
  by (cases v) simp_all

lemma midpoint_distance_NaN: "midpoint_distance p = NaN \<longleftrightarrow> snd (snd p) = NaN"
  by (simp add: midpoint_distance_def fsub_def Math_abs_NaN num64_NaN binary64_half js_minus_half_NaN)

lemma js_gt_irrefl: "\<not> js_gt a a"
  by (cases a) simp_all

lemma js_gt_le_trans:
  "a \<noteq> NaN \<Longrightarrow> b \<noteq> NaN \<Longrightarrow> \<not> js_gt a b \<Longrightarrow> js_gt c b \<Longrightarrow> js_gt c a"
  by (cases a; cases b; cases c) simp_all

lemma js_gt_asym: "js_gt a b \<Longrightarrow> \<not> js_gt b a"
  by (cases a; cases b) simp_all

lemma lookup_place:
  "lookup (place cellSize p xyz) c =
     (if cell_of cellSize p = c then keep p (lookup xyz c) else lookup xyz c)"
proof (cases "cell_of cellSize p")
  case (Pair cy cx)
  show ?thesis
  proof (cases c)
    case c: (Pair dy dx)
    show ?thesis
      unfolding place_def Pair c lookup_def keep_def midpoint_distance_def
      by (auto simp: arr_set_def arr_empty_def Let_def split: option.splits)
  qed
qed

lemma lookup_fold_place:
  "lookup (fold (place cellSize) pts xyz) c =
     fold keep (filter (\<lambda>p. cell_of cellSize p = c) pts) (lookup xyz c)"
  by (induction pts arbitrary: xyz) (simp_all add: lookup_place)

lemma lookup_empty: "lookup arr_empty c = None"
  by (simp add: lookup_def arr_empty_def)

lemma keep_NaN_cell: "snd (snd q) = NaN \<Longrightarrow> fold keep ps (Some q) = Some q"
proof (induction ps)
  case Nil
  then show ?case by simp
next
  case (Cons p ps)
  have "midpoint_distance q = NaN" using Cons.prems by (simp add: midpoint_distance_NaN)
  then have "keep p (Some q) = Some q" by (cases "midpoint_distance p") (simp_all add: keep_def)
  then show ?case using Cons by simp
qed

lemma keep_Some: "keep p (Some q) = Some p \<or> keep p (Some q) = Some q"
  by (simp add: keep_def)

lemma keep_skips_NaN:
  "fold keep ps (Some q) = fold keep (filter (\<lambda>p. snd (snd p) \<noteq> NaN) ps) (Some q)"
proof (induction ps arbitrary: q)
  case Nil
  then show ?case by simp
next
  case (Cons p ps)
  obtain r where r: "keep p (Some q) = Some r" using keep_Some[of p q] by blast
  show ?case
  proof (cases "snd (snd p) = NaN")
    case True
    then have "midpoint_distance p = NaN" by (simp add: midpoint_distance_NaN)
    then have "keep p (Some q) = Some q" by (simp add: keep_def)
    then show ?thesis using True Cons.IH[of q] by simp
  next
    case False
    then show ?thesis using Cons.IH[of r] r by simp
  qed
qed

lemma fold_keep_first_farthest:
  assumes "nums \<noteq> []" and "\<forall>p\<in>set nums. snd (snd p) \<noteq> NaN"
  shows "\<exists>k<length nums. fold keep nums None = Some (nums ! k) \<and>
        (\<forall>j<length nums. \<not> js_gt (midpoint_distance (nums ! j)) (midpoint_distance (nums ! k))) \<and>
        (\<forall>j<k. js_gt (midpoint_distance (nums ! k)) (midpoint_distance (nums ! j)))"
  using assms
proof (induction nums rule: rev_induct)
  case Nil
  then show ?case by simp
next
  case (snoc p nums)
  have nn: "\<And>q. q \<in> set (nums @ [p]) \<Longrightarrow> midpoint_distance q \<noteq> NaN"
    using snoc.prems(2) by (auto simp: midpoint_distance_NaN)
  show ?case
  proof (cases "nums = []")
    case True
    then show ?thesis by (simp add: keep_def js_gt_irrefl)
  next
    case False
    from snoc.prems(2) have "\<forall>p\<in>set nums. snd (snd p) \<noteq> NaN" by simp
    from snoc.IH[OF False this] obtain k where k: "k < length nums"
      and r: "fold keep nums None = Some (nums ! k)"
      and mx: "\<And>j. j < length nums \<Longrightarrow>
                 \<not> js_gt (midpoint_distance (nums ! j)) (midpoint_distance (nums ! k))"
      and fst: "\<And>j. j < k \<Longrightarrow> js_gt (midpoint_distance (nums ! k)) (midpoint_distance (nums ! j))"
      by blast
    have nk: "midpoint_distance (nums ! k) \<noteq> NaN" using nn k by simp
    have nj: "\<And>j. j < length nums \<Longrightarrow> midpoint_distance (nums ! j) \<noteq> NaN" using nn by simp
    show ?thesis
    proof (cases "js_gt (midpoint_distance p) (midpoint_distance (nums ! k))")
      case True
      have above: "\<And>j. j < length nums \<Longrightarrow>
          js_gt (midpoint_distance p) (midpoint_distance (nums ! j))"
        using js_gt_le_trans[OF nj nk mx True] by blast
      have "fold keep (nums @ [p]) None = Some ((nums @ [p]) ! length nums)"
        using True r by (simp add: keep_def)
      moreover have "\<forall>j<length (nums @ [p]).
          \<not> js_gt (midpoint_distance ((nums @ [p]) ! j))
                  (midpoint_distance ((nums @ [p]) ! length nums))"
        using above js_gt_asym by (auto simp: nth_append less_Suc_eq js_gt_irrefl)
      moreover have "\<forall>j<length nums.
          js_gt (midpoint_distance ((nums @ [p]) ! length nums))
                (midpoint_distance ((nums @ [p]) ! j))"
        using above by (auto simp: nth_append)
      ultimately show ?thesis
        by (intro exI[of _ "length nums"]) simp
    next
      case notgt: False
      have "fold keep (nums @ [p]) None = Some ((nums @ [p]) ! k)"
        using notgt r k by (simp add: keep_def nth_append)
      moreover have "\<forall>j<length (nums @ [p]).
          \<not> js_gt (midpoint_distance ((nums @ [p]) ! j)) (midpoint_distance ((nums @ [p]) ! k))"
        using notgt mx k by (auto simp: nth_append less_Suc_eq)
      moreover have "\<forall>j<k.
          js_gt (midpoint_distance ((nums @ [p]) ! k)) (midpoint_distance ((nums @ [p]) ! j))"
        using fst k by (auto simp: nth_append)
      ultimately show ?thesis
        using k by (intro exI[of _ k]) simp
    qed
  qed
qed

lemma fold_keep_same:
  assumes "same \<noteq> []"
  shows "(snd (snd (hd same)) = NaN \<longrightarrow> fold keep same None = Some (hd same)) \<and>
         (snd (snd (hd same)) \<noteq> NaN \<longrightarrow>
            fold keep same None = fold keep (filter (\<lambda>p. snd (snd p) \<noteq> NaN) same) None)"
proof -
  obtain h t where ht: "same = h # t" using assms by (cases same) auto
  have "fold keep same None = fold keep t (Some h)" by (simp add: ht keep_def)
  then show ?thesis
    using keep_NaN_cell[of h t] keep_skips_NaN[of t h] by (auto simp: ht keep_def)
qed

lemma distance_02: "midpoint_distance (x, y, Fin (1 / 5)) = Fin (5404319552844595 / 2 ^ 54)"
  by (simp add: midpoint_distance_def fsub_def binary64_eval)

lemma distance_095: "midpoint_distance (x, y, Fin (19 / 20)) = Fin (2026619832316723 / 2 ^ 52)"
  by (simp add: midpoint_distance_def fsub_def binary64_eval)

lemma distance_07: "midpoint_distance (x, y, Fin (7 / 10)) = Fin (900719925474099 / 2 ^ 52)"
  by (simp add: midpoint_distance_def fsub_def binary64_eval)

lemma distance_03: "midpoint_distance (x, y, Fin (3 / 10)) = Fin (3602879701896397 / 2 ^ 54)"
  by (simp add: midpoint_distance_def fsub_def binary64_eval)

lemma distance_01: "midpoint_distance (x, y, Fin (1 / 10)) = Fin (3602879701896397 / 2 ^ 53)"
  by (simp add: midpoint_distance_def fsub_def binary64_eval)

lemma distance_09: "midpoint_distance (x, y, Fin (9 / 10)) = Fin (3602879701896397 / 2 ^ 53)"
  by (simp add: midpoint_distance_def fsub_def binary64_eval)

lemma filter_keeps: "x \<in> set xs \<Longrightarrow> P x \<Longrightarrow> filter P xs \<noteq> []"
  by (auto simp: filter_empty_conv)

text \<open>
  C3, as the claim states it, fails for a feature without a weight: its weight is
  \<open>undefined\<close>, every comparison with it is false, and once it is the first feature seen
  in a cell it stays there, whatever follows.
\<close>

theorem cell_keeps_first_farthest_counterexample:
  "coarsen example_layer (example_frame []) 6
      \<lparr>getFeatures = Some [\<lparr>getGeometry = Some (0, 0), attr_weight = None\<rparr>,
                           feature_at 1 1 0.95]\<rparr> = Inr [(0, 0, NaN)]"
  by (simp add: grid_eval)

text \<open>
  C3, amended.  Let \<open>same\<close> be the points of the frame that fall into the cell \<open>c\<close>, in the
  order in which they are seen, and \<open>nums\<close> those of them whose weight is a number.  If
  the first point of \<open>same\<close> has no number as weight, the cell holds it.  Otherwise the cell
  holds a point \<open>nums ! k\<close> whose \<open>Math.abs(weight - 0.5)\<close>, as computed on doubles, is not
  exceeded by that of any point of \<open>nums\<close> and exceeds that of every earlier one: the
  farthest from 0.5, the first-seen among those whose computed distances are equal; a
  point without a number as weight never replaces the point of the cell.  Two points with
  weights 0.2 and 0.95 in one cell leave the point with weight 0.95, in either order.  The
  comparison is the double's: after 0.7, weight 0.3 wins (the doubles give 0.19999999999999996
  and 0.2), and after 0.1, weight 0.9 does not (both differences round to the same double).
\<close>

theorem cell_keeps_first_farthest:
  "(let same = filter (\<lambda>p. cell_of cellSize p = c) pts;
        nums = filter (\<lambda>p. snd (snd p) \<noteq> NaN) same
    in same \<noteq> [] \<longrightarrow>
       (snd (snd (hd same)) = NaN \<longrightarrow>
          lookup (fold (place cellSize) pts arr_empty) c = Some (hd same)) \<and>
       (snd (snd (hd same)) \<noteq> NaN \<longrightarrow>
          (\<exists>k<length nums.
             lookup (fold (place cellSize) pts arr_empty) c = Some (nums ! k) \<and>
             (\<forall>j<length nums.
                \<not> js_gt (midpoint_distance (nums ! j)) (midpoint_distance (nums ! k))) \<and>
             (\<forall>j<k. js_gt (midpoint_distance (nums ! k)) (midpoint_distance (nums ! j)))))) \<and>
   (cell_of cellSize (x1, y1, Fin 0.2) = cell_of cellSize (x2, y2, Fin 0.95) \<longrightarrow>
      lookup (fold (place cellSize) [(x1, y1, Fin 0.2), (x2, y2, Fin 0.95)] arr_empty)
         (cell_of cellSize (x1, y1, Fin 0.2)) = Some (x2, y2, Fin 0.95) \<and>
      lookup (fold (place cellSize) [(x2, y2, Fin 0.95), (x1, y1, Fin 0.2)] arr_empty)
         (cell_of cellSize (x1, y1, Fin 0.2)) = Some (x2, y2, Fin 0.95)) \<and>
   (cell_of cellSize (x1, y1, Fin 0.7) = cell_of cellSize (x2, y2, Fin 0.3) \<longrightarrow>
      lookup (fold (place cellSize) [(x1, y1, Fin 0.7), (x2, y2, Fin 0.3)] arr_empty)
         (cell_of cellSize (x1, y1, Fin 0.7)) = Some (x2, y2, Fin 0.3)) \<and>
   (cell_of cellSize (x1, y1, Fin 0.1) = cell_of cellSize (x2, y2, Fin 0.9) \<longrightarrow>
      lookup (fold (place cellSize) [(x1, y1, Fin 0.1), (x2, y2, Fin 0.9)] arr_empty)
         (cell_of cellSize (x1, y1, Fin 0.1)) = Some (x1, y1, Fin 0.1))"
proof (intro conjI)
  show "let same = filter (\<lambda>p. cell_of cellSize p = c) pts;
        nums = filter (\<lambda>p. snd (snd p) \<noteq> NaN) same
    in same \<noteq> [] \<longrightarrow>
       (snd (snd (hd same)) = NaN \<longrightarrow>
          lookup (fold (place cellSize) pts arr_empty) c = Some (hd same)) \<and>
       (snd (snd (hd same)) \<noteq> NaN \<longrightarrow>
          (\<exists>k<length nums.
             lookup (fold (place cellSize) pts arr_empty) c = Some (nums ! k) \<and>
             (\<forall>j<length nums.
                \<not> js_gt (midpoint_distance (nums ! j)) (midpoint_distance (nums ! k))) \<and>
             (\<forall>j<k. js_gt (midpoint_distance (nums ! k)) (midpoint_distance (nums ! j)))))"
  proof -
    let ?same = "filter (\<lambda>p. cell_of cellSize p = c) pts"
    let ?nums = "filter (\<lambda>p. snd (snd p) \<noteq> NaN) ?same"
    have l: "lookup (fold (place cellSize) pts arr_empty) c = fold keep ?same None"
      by (simp add: lookup_fold_place lookup_empty)
    have "(snd (snd (hd ?same)) = NaN \<longrightarrow> fold keep ?same None = Some (hd ?same)) \<and>
       (snd (snd (hd ?same)) \<noteq> NaN \<longrightarrow>
          (\<exists>k<length ?nums.
             fold keep ?same None = Some (?nums ! k) \<and>
             (\<forall>j<length ?nums.
                \<not> js_gt (midpoint_distance (?nums ! j)) (midpoint_distance (?nums ! k))) \<and>
             (\<forall>j<k. js_gt (midpoint_distance (?nums ! k)) (midpoint_distance (?nums ! j)))))"
      if ne: "?same \<noteq> []"
    proof (intro conjI impI)
      assume "snd (snd (hd ?same)) = NaN"
      then show "fold keep ?same None = Some (hd ?same)"
        using fold_keep_same[OF ne] by blast
    next
      assume h: "snd (snd (hd ?same)) \<noteq> NaN"
      then have e: "fold keep ?same None = fold keep ?nums None"
        using fold_keep_same[OF ne] by blast
      have nne: "?nums \<noteq> []"
        using hd_in_set[OF ne] h filter_keeps[of "hd ?same" ?same "\<lambda>p. snd (snd p) \<noteq> NaN"]
        by blast
      have "\<forall>p\<in>set ?nums. snd (snd p) \<noteq> NaN"
        by (simp del: filter_filter)
      from fold_keep_first_farthest[OF nne this]
      show "\<exists>k<length ?nums.
             fold keep ?same None = Some (?nums ! k) \<and>
             (\<forall>j<length ?nums.
                \<not> js_gt (midpoint_distance (?nums ! j)) (midpoint_distance (?nums ! k))) \<and>
             (\<forall>j<k. js_gt (midpoint_distance (?nums ! k)) (midpoint_distance (?nums ! j)))"
        unfolding e .
    qed
    then show ?thesis unfolding Let_def l by blast
  qed
next
  show "cell_of cellSize (x1, y1, Fin 0.2) = cell_of cellSize (x2, y2, Fin 0.95) \<longrightarrow>
      lookup (fold (place cellSize) [(x1, y1, Fin 0.2), (x2, y2, Fin 0.95)] arr_empty)
         (cell_of cellSize (x1, y1, Fin 0.2)) = Some (x2, y2, Fin 0.95) \<and>
      lookup (fold (place cellSize) [(x2, y2, Fin 0.95), (x1, y1, Fin 0.2)] arr_empty)
         (cell_of cellSize (x1, y1, Fin 0.2)) = Some (x2, y2, Fin 0.95)"
    by (simp add: lookup_place lookup_empty keep_def distance_02 distance_095)
next
  show "cell_of cellSize (x1, y1, Fin 0.7) = cell_of cellSize (x2, y2, Fin 0.3) \<longrightarrow>
      lookup (fold (place cellSize) [(x1, y1, Fin 0.7), (x2, y2, Fin 0.3)] arr_empty)
         (cell_of cellSize (x1, y1, Fin 0.7)) = Some (x2, y2, Fin 0.3)"
    by (simp add: lookup_place lookup_empty keep_def distance_07 distance_03)
next
  show "cell_of cellSize (x1, y1, Fin 0.1) = cell_of cellSize (x2, y2, Fin 0.9) \<longrightarrow>
      lookup (fold (place cellSize) [(x1, y1, Fin 0.1), (x2, y2, Fin 0.9)] arr_empty)
         (cell_of cellSize (x1, y1, Fin 0.1)) = Some (x1, y1, Fin 0.1)"
    by (simp add: lookup_place lookup_empty keep_def distance_01 distance_09)
qed

theorem cell_keeps_first_farthest_witness:
  "filter (\<lambda>p. cell_of 6 p = (0, 0))
      [(0, 0, Fin (1 / 4)), (1, 1, NaN), (2, 3, Fin (3 / 4)), (20, 0, Fin (1 / 10))]
      = [(0, 0, Fin (1 / 4)), (1, 1, NaN), (2, 3, Fin (3 / 4))] \<and>
   lookup (fold (place 6)
      [(0, 0, Fin (1 / 4)), (1, 1, NaN), (2, 3, Fin (3 / 4)), (20, 0, Fin (1 / 10))] arr_empty) (0, 0)
      = Some (0, 0, Fin (1 / 4)) \<and>
   lookup (fold (place 6) [(0, 0, NaN), (1, 1, Fin (19 / 20))] arr_empty) (0, 0) = Some (0, 0, NaN) \<and>
   cell_of 6 (4, 5, Fin 0.2) = cell_of 6 (1, 2, Fin 0.95) \<and>
   lookup (fold (place 6) [(4, 5, Fin 0.2), (1, 2, Fin 0.95)] arr_empty) (cell_of 6 (4, 5, Fin 0.2))
      = Some (1, 2, Fin 0.95) \<and>
   lookup (fold (place 6) [(4, 5, Fin 0.7), (1, 2, Fin 0.3)] arr_empty) (cell_of 6 (4, 5, Fin 0.7))
      = Some (1, 2, Fin 0.3) \<and>
   lookup (fold (place 6) [(4, 5, Fin 0.1), (1, 2, Fin 0.9)] arr_empty) (cell_of 6 (4, 5, Fin 0.1))
      = Some (4, 5, Fin 0.1)"
proof -
  let ?pts = "[(0, 0, Fin (1 / 4)), (1, 1, NaN), (2, 3, Fin (3 / 4)), (20, 0, Fin (1 / 10))] :: point list"
  let ?same = "[(0, 0, Fin (1 / 4)), (1, 1, NaN), (2, 3, Fin (3 / 4))] :: point list"
  let ?nums = "[(0, 0, Fin (1 / 4)), (2, 3, Fin (3 / 4))] :: point list"
  let ?nan = "[(0, 0, NaN), (1, 1, Fin (19 / 20))] :: point list"
  have f: "filter (\<lambda>p. cell_of 6 p = (0, 0)) ?pts = ?same"
    by (simp add: cell_of_def)
  have n: "filter (\<lambda>p. snd (snd p) \<noteq> NaN) ?same = ?nums" by simp
  have fn: "filter (\<lambda>p. cell_of 6 p = (0, 0)) ?nan = ?nan"
    by (simp add: cell_of_def)
  have c: "cell_of 6 (4, 5, w) = cell_of 6 (1, 2, v)" for w v
    by (simp add: cell_of_def)
  have d: "midpoint_distance (?nums ! 0) = Fin (1 / 4)" "midpoint_distance (?nums ! 1) = Fin (1 / 4)"
    by (simp_all add: midpoint_distance_def fsub_def binary64_eval)
  note t = cell_keeps_first_farthest[of 6 "(0, 0)" ?pts 4 5 1 2]
  from t have "\<exists>k<length ?nums.
       lookup (fold (place 6) ?pts arr_empty) (0, 0) = Some (?nums ! k) \<and>
       (\<forall>j<length ?nums. \<not> js_gt (midpoint_distance (?nums ! j)) (midpoint_distance (?nums ! k))) \<and>
       (\<forall>j<k. js_gt (midpoint_distance (?nums ! k)) (midpoint_distance (?nums ! j)))"
    unfolding Let_def f n by simp
  then obtain k where k: "k < length ?nums"
    and r: "lookup (fold (place 6) ?pts arr_empty) (0, 0) = Some (?nums ! k)"
    and first: "\<forall>j<k. js_gt (midpoint_distance (?nums ! k)) (midpoint_distance (?nums ! j))"
    by blast
  have "k = 0 \<or> k = 1" using k by auto
  then have "k = 0"
  proof
    assume k1: "k = 1"
    have "(0::nat) < 1" by simp
    with first k1 have "js_gt (midpoint_distance (?nums ! 1)) (midpoint_distance (?nums ! 0))"
      by blast
    then show ?thesis unfolding d by simp
  qed
  with r have v: "lookup (fold (place 6) ?pts arr_empty) (0, 0) = Some (0, 0, Fin (1 / 4))" by simp
  from cell_keeps_first_farthest[of 6 "(0, 0)" ?nan 4 5 1 2]
  have vn: "lookup (fold (place 6) ?nan arr_empty) (0, 0) = Some (0, 0, NaN)"
    unfolding Let_def fn by simp
  from t c have i: "lookup (fold (place 6) [(4, 5, Fin 0.2), (1, 2, Fin 0.95)] arr_empty)
        (cell_of 6 (4, 5, Fin 0.2)) = Some (1, 2, Fin 0.95)"
    "lookup (fold (place 6) [(4, 5, Fin 0.7), (1, 2, Fin 0.3)] arr_empty)
        (cell_of 6 (4, 5, Fin 0.7)) = Some (1, 2, Fin 0.3)"
    "lookup (fold (place 6) [(4, 5, Fin 0.1), (1, 2, Fin 0.9)] arr_empty)
        (cell_of 6 (4, 5, Fin 0.1)) = Some (4, 5, Fin 0.1)"
    by blast+
  from f v vn c[of "Fin 0.2" "Fin 0.95"] i show ?thesis by blast
qed


section \<open>Clamping happens after the selection\<close>

lemma keep_cases: "keep p cell = Some p \<or> keep p cell = cell"
  by (simp add: keep_def split: option.splits)

lemma place_numeric:
  assumes "\<And>c q. lookup xyz c = Some q \<Longrightarrow> snd (snd q) \<noteq> NaN" and "snd (snd p) \<noteq> NaN"
    and "lookup (place cellSize p xyz) c = Some q"
  shows "snd (snd q) \<noteq> NaN"
proof (cases "cell_of cellSize p = c")
  case True
  then have k: "keep p (lookup xyz c) = Some q" using assms(3) by (simp add: lookup_place)
  from keep_cases[of p "lookup xyz c"] show ?thesis
  proof
    assume "keep p (lookup xyz c) = Some p"
    then have "q = p" using k by simp
    then show ?thesis using assms(2) by simp
  next
    assume "keep p (lookup xyz c) = lookup xyz c"
    then have "lookup xyz c = Some q" using k by simp
    then show ?thesis by (rule assms(1))
  qed
next
  case False
  then have "lookup xyz c = Some q" using assms(3) by (simp add: lookup_place)
  then show ?thesis by (rule assms(1))
qed

lemma bucket_numeric:
  assumes "bucket this fs cellSize features xyz = Inr xyz'"
    and "\<forall>f\<in>set features. this_weight this f \<noteq> NaN"
    and "\<And>c q. lookup xyz c = Some q \<Longrightarrow> snd (snd q) \<noteq> NaN"
    and "lookup xyz' c = Some q"
  shows "snd (snd q) \<noteq> NaN"
  using assms
proof (induction features arbitrary: xyz)
  case Nil
  then show ?case by simp
next
  case (Cons f features)
  from Cons.prems(1) obtain coord where g: "getGeometry f = Some coord"
    by (cases "getGeometry f") simp_all
  obtain x0 y0 x1 y1 where e: "extent fs = (x0, y0, x1, y1)" by (cases "extent fs") auto
  have w: "this_weight this f \<noteq> NaN" and rest: "\<forall>f\<in>set features. this_weight this f \<noteq> NaN"
    using Cons.prems(2) by simp_all
  show ?case
  proof (cases "fst coord < x0 \<or> snd coord < y0 \<or> fst coord > x1 \<or> snd coord > y1")
    case True
    then have "bucket this fs cellSize features xyz = Inr xyz'"
      using Cons.prems(1) g e by simp
    then show ?thesis using Cons.IH rest Cons.prems(3,4) by blast
  next
    case False
    let ?p = "(Math_round (fst (transform2D coord (coordinateToPixelTransform fs)) * pixelRatio fs),
               Math_round (snd (transform2D coord (coordinateToPixelTransform fs)) * pixelRatio fs),
               this_weight this f)"
    have b: "bucket this fs cellSize features (place cellSize ?p xyz) = Inr xyz'"
      using Cons.prems(1) g e False by (simp add: Let_def)
    have "\<And>c q. lookup (place cellSize ?p xyz) c = Some q \<Longrightarrow> snd (snd q) \<noteq> NaN"
      using place_numeric[of xyz ?p cellSize] Cons.prems(3) w by simp
    then show ?thesis using Cons.IH[OF b rest _ Cons.prems(4)] by blast
  qed
qed

lemma get_pointset_stored:
  assumes "p \<in> set (get_pointset xyz)"
  shows "\<exists>c q. lookup xyz c = Some q \<and> snd (snd p) = clamp_num (snd (snd q)) 0 1"
proof -
  from assms obtain i where i: "p \<in> set (case elems xyz (int i) of None \<Rightarrow> [] | Some row \<Rightarrow> row_points row)"
    by (auto simp: get_pointset_def)
  then obtain row where r: "elems xyz (int i) = Some row" and p: "p \<in> set (row_points row)"
    by (cases "elems xyz (int i)") simp_all
  from p obtain j where j: "p \<in> set (case elems row (int j) of None \<Rightarrow> []
      | Some p \<Rightarrow> [(Math_round (real_of_int (fst p)), Math_round (real_of_int (fst (snd p))),
                    clamp_num (snd (snd p)) 0 1)])"
    by (auto simp: row_points_def)
  then obtain q where q: "elems row (int j) = Some q"
    and v: "snd (snd p) = clamp_num (snd (snd q)) 0 1"
    by (cases "elems row (int j)") simp_all
  have "lookup xyz (int i, int j) = Some q" using r q by (simp add: lookup_def)
  then show ?thesis using v by blast
qed

lemma clamp_num_unit: "v \<noteq> NaN \<Longrightarrow> \<exists>w. clamp_num v 0 1 = Fin w \<and> 0 \<le> w \<and> w \<le> 1"
  by (cases v) (simp_all add: clamp_def)

text \<open>
  C10.  Provided the weight accessor returns a number for every feature, every point of the
  coarsened point set has its weight in [0, 1].  The selection in a cell compares the
  weights as the accessor returns them: a feature of weight 5 (or -3) replaces an earlier
  feature of weight 0.9 in its cell and enters the point set with weight 1 (or 0).
  Clamping first would give another result: against an earlier feature of weight 0,
  weight 5 wins as it is, while the clamped weights 0 and 1 tie and the earlier feature
  stays.  The proviso is needed: the weight of a feature without the attribute stays NaN.
\<close>

theorem weights_clamped_after_selection:
  "((\<forall>features. getFeatures src = Some features \<longrightarrow>
        (\<forall>f\<in>set features. this_weight this f \<noteq> NaN)) \<and>
    coarsen this fs cellSize src = Inr pointset \<longrightarrow>
      (\<forall>p\<in>set pointset. \<exists>w. snd (snd p) = Fin w \<and> 0 \<le> w \<and> w \<le> 1)) \<and>
   coarsen example_layer (example_frame []) 6
      \<lparr>getFeatures = Some [feature_at 0 0 0.9, feature_at 1 1 5]\<rparr> = Inr [(1, 1, Fin 1)] \<and>
   coarsen example_layer (example_frame []) 6
      \<lparr>getFeatures = Some [feature_at 0 0 0.9, feature_at 1 1 (- 3)]\<rparr> = Inr [(1, 1, Fin 0)] \<and>
   coarsen example_layer (example_frame []) 6
      \<lparr>getFeatures = Some [feature_at 0 0 0, feature_at 1 1 5]\<rparr> = Inr [(1, 1, Fin 1)] \<and>
   coarsen (example_layer\<lparr>this_weight := \<lambda>f. clamp_num (get_weight f) 0 1\<rparr>) (example_frame []) 6
      \<lparr>getFeatures = Some [feature_at 0 0 0, feature_at 1 1 5]\<rparr> = Inr [(0, 0, Fin 0)] \<and>
   coarsen example_layer (example_frame []) 6
      \<lparr>getFeatures = Some [\<lparr>getGeometry = Some (0, 0), attr_weight = None\<rparr>]\<rparr> = Inr [(0, 0, NaN)]"
proof (intro conjI impI ballI)
  fix p
  assume a: "(\<forall>features. getFeatures src = Some features \<longrightarrow>
        (\<forall>f\<in>set features. this_weight this f \<noteq> NaN)) \<and>
    coarsen this fs cellSize src = Inr pointset" and p: "p \<in> set pointset"
  show "\<exists>w. snd (snd p) = Fin w \<and> 0 \<le> w \<and> w \<le> 1"
  proof (cases "getFeatures src")
    case None
    then show ?thesis using a p by (simp add: coarsen_def)
  next
    case (Some features)
    then have n: "\<forall>f\<in>set features. this_weight this f \<noteq> NaN" using a by simp
    from a Some obtain xyz where b: "bucket this fs cellSize features arr_empty = Inr xyz"
      and ps: "pointset = get_pointset xyz"
      by (cases "bucket this fs cellSize features arr_empty") (simp_all add: coarsen_def)
    from p ps obtain c q where q: "lookup xyz c = Some q"
      and v: "snd (snd p) = clamp_num (snd (snd q)) 0 1"
      using get_pointset_stored by blast
    have "snd (snd q) \<noteq> NaN"
      using bucket_numeric[OF b n _ q] by (simp add: lookup_empty)
    then show ?thesis using v clamp_num_unit by simp
  qed
qed (simp_all add: grid_eval)

theorem weights_clamped_after_selection_witness:
  "list_all (\<lambda>f. get_weight f \<noteq> NaN) [feature_at 0 0 0.9, feature_at 1 1 5] \<and>
   coarsen example_layer (example_frame []) 6
      \<lparr>getFeatures = Some [feature_at 0 0 0.9, feature_at 1 1 5]\<rparr> = Inr [(1, 1, Fin 1)] \<and>
   list_all (\<lambda>p. \<exists>w. snd (snd p) = Fin w \<and> 0 \<le> w \<and> w \<le> 1) [(1 :: int, 1 :: int, Fin 1)]"
  using weights_clamped_after_selection[of "\<lparr>getFeatures = Some [feature_at 0 0 0.9, feature_at 1 1 5]\<rparr>"
      example_layer "example_frame []" 6 "[(1, 1, Fin 1)]"]
  by (simp add: feature_at_def get_weight_def)


section \<open>The alpha rescale at equal minimum and maximum\<close>

lemma rescaled_alpha_degenerate:
  "rescaled_alpha w w a = (if a > w then PosInf else if a < w then NegInf else NaN)"
  by (simp add: rescaled_alpha_def js_div_def)

lemma upt8: "[0..<8] = [0, 1, 2, 3, 4, 5, 6, 7]"
  by (simp add: upt_rec)

lemma rep8: "replicate 8 (0::int) = [0, 0, 0, 0, 0, 0, 0, 0]"
  by (simp add: numeral_eq_Suc)

lemma blend_first:
  "covering_blend st (4 / 5) dx dy w h [0, 0, 0, 0, 0, 0, 0, 0] = [0, 0, 0, 204, 0, 0, 0, 204]"
  by (simp add: covering_blend_def upt8 Math_round_def)

lemma blend_second:
  "covering_blend st (4 / 5) dx dy w h [0, 0, 0, 204, 0, 0, 0, 204] = [0, 0, 0, 245, 0, 0, 0, 245]"
  by (simp add: covering_blend_def upt8 Math_round_def)

lemma blend_transparent:
  "covering_blend st 0 dx dy w h [0, 0, 0, 0, 0, 0, 0, 0] = [0, 0, 0, 0, 0, 0, 0, 0]"
  by (simp add: covering_blend_def upt8 Math_round_def)

lemma copy_204:
  "copy_alpha [0, 0, 0, 204, 0, 0, 0, 204] [0, 0, 0, 0, 0, 0, 0, 0] = [0, 0, 0, 204, 0, 0, 0, 204]"
  by (simp add: copy_alpha_def for4_def upt_0_2 store8_def)

lemma copy_0:
  "copy_alpha [0, 0, 0, 0, 0, 0, 0, 0] [0, 0, 0, 0, 0, 0, 0, 0] = [0, 0, 0, 0, 0, 0, 0, 0]"
  by (simp add: copy_alpha_def for4_def upt_0_2 store8_def)

lemmas canvas_eval =
  composite_def rasterize_def low_step_def high_step_def final_step_def drawImage_def
  clearRect_def getImageData_def putImageData_def example_context_def rep8

lemma collect_two:
  "collect wide_layer (example_frame [hilo_layer [feature_at 20 1 0.1, feature_at 30 1 0.9]]) =
     Inr (wide_layer\<lparr>this_baseResolution := Some 1\<rparr>, wide_circle, 51,
          Some [(20, 1, Fin 0.1), (30, 1, Fin 0.9)])"
  by (simp add: collect_def zoom_def createCircle_def createCanvasContext2D_def canvas_dim_def
      to_unsigned_long_def cell_size_def wide_layer_def wide_circle_def
      hilo_layer_def grid_eval upt_0_2)

lemma collect_one:
  "collect wide_layer (example_frame [hilo_layer [feature_at 20 1 (1 / 2)]]) =
     Inr (wide_layer\<lparr>this_baseResolution := Some 1\<rparr>, wide_circle, 51, Some [(20, 1, Fin (1 / 2))])"
  by (simp add: collect_def zoom_def createCircle_def createCanvasContext2D_def canvas_dim_def
      to_unsigned_long_def cell_size_def wide_layer_def wide_circle_def
      hilo_layer_def grid_eval)

lemma color_two:
  "color_pass example_gradient [0, 0, 0, 204, 0, 0, 0, 204] [0, 0, 0, 204, 0, 0, 0, 204]
     [0, 0, 0, 245, 0, 0, 0, 245] = ([0, 1, 2, 245, 0, 1, 2, 245], 128, 128)"
  by (simp add: color_pass_def for4_def color_step_def signed_weight_def clamp_def
      Math_round_def store8_def example_gradient_def upt_0_2)

lemma color_one:
  "color_pass example_gradient [0, 0, 0, 0, 0, 0, 0, 0] [0, 0, 0, 0, 0, 0, 0, 0]
     [0, 0, 0, 0, 0, 0, 0, 0] = ([0, 1, 2, 0, 0, 1, 2, 0], 128, 128)"
  by (simp add: color_pass_def for4_def color_step_def signed_weight_def clamp_def
      Math_round_def store8_def example_gradient_def upt_0_2)

lemma resolve_two:
  "resolve example_gradient [0, 0, 0, 204, 0, 0, 0, 204] [0, 0, 0, 204, 0, 0, 0, 204]
     [0, 0, 0, 245, 0, 0, 0, 245] = [0, 1, 2, 255, 0, 1, 2, 255]"
  by (simp add: resolve_def color_two rescale_pass_def rescale_step_def rescaled_alpha_def
      js_div_def for4_def upt_0_2)

lemma resolve_one:
  "resolve example_gradient [0, 0, 0, 0, 0, 0, 0, 0] [0, 0, 0, 0, 0, 0, 0, 0]
     [0, 0, 0, 0, 0, 0, 0, 0] = [0, 1, 2, 0, 0, 1, 2, 0]"
  by (simp add: resolve_def color_one rescale_pass_def rescale_step_def rescaled_alpha_def
      js_div_def for4_def upt_0_2)

lemma this_gradient_wide: "this_gradient (wide_layer\<lparr>this_baseResolution := Some 1\<rparr>) = example_gradient"
  by (simp add: wide_layer_def example_layer_def)

text \<open>
  C1.  The claim has the rescale pass skipped when \<open>wMax = wMin\<close>.  The source runs it
  unguarded.  Take a layer with radius 50 and no blur on a canvas of two pixels, and two
  features of weights 0.1 and 0.9 in neighbouring cells, each disc covering the canvas:
  the low and the high alpha are 204 and the final alpha is 245 at both pixels, the
  intensity is 128 at both, the quotient is plus infinity and the alpha written back is
  255, neither the alpha as computed nor a transparent pixel.  With a single feature of
  weight 0.5 all alphas are 0, the quotient is minus infinity and the alpha written is 0.
\<close>

theorem rescale_divides_by_zero:
  "map_sum id (\<lambda>r. data (snd r))
     (handleRender covering_blend wide_layer
        \<lparr>event_context = example_context,
         frameState = example_frame [hilo_layer [feature_at 20 1 0.1, feature_at 30 1 0.9]]\<rparr>)
     = Inr [0, 1, 2, 255, 0, 1, 2, 255] \<and>
   color_pass example_gradient [0, 0, 0, 204, 0, 0, 0, 204] [0, 0, 0, 204, 0, 0, 0, 204]
     [0, 0, 0, 245, 0, 0, 0, 245] = ([0, 1, 2, 245, 0, 1, 2, 245], 128, 128) \<and>
   rescaled_alpha 128 128 245 = PosInf \<and>
   map_sum id (\<lambda>r. data (snd r))
     (handleRender covering_blend wide_layer
        \<lparr>event_context = example_context,
         frameState = example_frame [hilo_layer [feature_at 20 1 0.5]]\<rparr>)
     = Inr [0, 1, 2, 0, 0, 1, 2, 0] \<and>
   color_pass example_gradient [0, 0, 0, 0, 0, 0, 0, 0] [0, 0, 0, 0, 0, 0, 0, 0]
     [0, 0, 0, 0, 0, 0, 0, 0] = ([0, 1, 2, 0, 0, 1, 2, 0], 128, 128) \<and>
   rescaled_alpha 128 128 0 = NegInf"
proof -
  have two: "map_sum id (\<lambda>r. data (snd r))
     (handleRender covering_blend wide_layer
        \<lparr>event_context = example_context,
         frameState = example_frame [hilo_layer [feature_at 20 1 0.1, feature_at 30 1 0.9]]\<rparr>)
     = Inr [0, 1, 2, 255, 0, 1, 2, 255]"
    by (simp add: handleRender_def collect_two this_gradient_wide canvas_eval
        blend_first blend_second copy_204 copy_0 resolve_two)
  have one: "map_sum id (\<lambda>r. data (snd r))
     (handleRender covering_blend wide_layer
        \<lparr>event_context = example_context,
         frameState = example_frame [hilo_layer [feature_at 20 1 0.5]]\<rparr>)
     = Inr [0, 1, 2, 0, 0, 1, 2, 0]"
    by (simp add: handleRender_def collect_one this_gradient_wide canvas_eval
        blend_transparent copy_0 resolve_one)
  have inf: "rescaled_alpha 128 128 245 = PosInf" "rescaled_alpha 128 128 0 = NegInf"
    by (simp_all add: rescaled_alpha_def js_div_def)
  show ?thesis using two one inf color_two color_one by blast
qed


section \<open>The shadow option\<close>

lemma zoom_shadow:
  "zoom (this\<lparr>this_shadow := s\<rparr>) r = (case zoom this r of (t, z) \<Rightarrow> (t\<lparr>this_shadow := s\<rparr>, z))"
  by (simp add: zoom_def Let_def split: option.splits)

lemma createCircle_shadow:
  "createCircle (this\<lparr>this_shadow := s\<rparr>) scaleRatio = createCircle this scaleRatio"
  by (simp add: createCircle_def)

lemma bucket_shadow:
  "bucket (this\<lparr>this_shadow := s\<rparr>) fs cellSize features xyz = bucket this fs cellSize features xyz"
  by (induction features arbitrary: xyz) (simp_all split: option.splits prod.splits)

lemma coarsen_shadow:
  "coarsen (this\<lparr>this_shadow := s\<rparr>) fs cellSize src = coarsen this fs cellSize src"
  by (simp add: coarsen_def bucket_shadow split: option.splits)

lemma collect_shadow:
  "collect (this\<lparr>this_shadow := s\<rparr>) fs =
     map_sum id (\<lambda>(t, r). (t\<lparr>this_shadow := s\<rparr>, r)) (collect this fs)"
  by (simp add: collect_def zoom_shadow createCircle_shadow coarsen_shadow Let_def
      split: prod.splits sum.splits option.splits)

text \<open>
  C8.  Two layers that differ only in the stored shadow value build the same stamp at every
  scale, and the render handler gives the same outcome for both on every event: the same
  exception, or the same context (pixel data and calls) with layers that again differ only
  in the shadow value.
\<close>

theorem shadow_unused:
  "createCircle (this\<lparr>this_shadow := s\<rparr>) scaleRatio = createCircle this scaleRatio \<and>
   handleRender blend (this\<lparr>this_shadow := s\<rparr>) event =
     map_sum id (\<lambda>(t, ctx). (t\<lparr>this_shadow := s\<rparr>, ctx)) (handleRender blend this event)"
  by (simp add: createCircle_shadow handleRender_def collect_shadow Let_def
      split: prod.splits sum.splits option.splits)


section \<open>A frame without points\<close>

text \<open>
  C2.  When the handler reaches line 388 with an empty point set, it returns with the
  event's context as it received it: the same pixel data and no call added, so neither
  \<open>clearRect\<close> nor \<open>putImageData\<close> was issued.
\<close>

theorem empty_pointset_noop:
  assumes "collect this (frameState event) = Inr (this', circleImage, radius, Some [])"
  shows "handleRender blend this event = Inr (this', event_context event)"
  using assms by (simp add: handleRender_def)

theorem empty_pointset_noop_witness:
  "collect example_layer (example_frame [hilo_layer [feature_at 200 200 0.3]]) =
     Inr (example_layer\<lparr>this_baseResolution := Some 1\<rparr>,
          \<lparr>circle_width = 22, circle_height = 22, shadowOffsetX = 22, shadowOffsetY = 22,
           shadowBlur = 5, shadowColor = ''#000'', arc_x = - 11, arc_y = - 11, arc_radius = 5\<rparr>,
          11, Some []) \<and>
   handleRender example_blend example_layer
       \<lparr>event_context = example_context,
        frameState = example_frame [hilo_layer [feature_at 200 200 0.3]]\<rparr> =
     Inr (example_layer\<lparr>this_baseResolution := Some 1\<rparr>, example_context)"
proof -
  have h: "collect example_layer (frameState \<lparr>event_context = example_context,
        frameState = example_frame [hilo_layer [feature_at 200 200 0.3]]\<rparr>) =
     Inr (example_layer\<lparr>this_baseResolution := Some 1\<rparr>,
          \<lparr>circle_width = 22, circle_height = 22, shadowOffsetX = 22, shadowOffsetY = 22,
           shadowBlur = 5, shadowColor = ''#000'', arc_x = - 11, arc_y = - 11, arc_radius = 5\<rparr>,
          11, Some [])"
    by (simp add: collect_def zoom_def createCircle_def createCanvasContext2D_def canvas_dim_def
        to_unsigned_long_def cell_size_def coarsen_def
        example_layer_def example_frame_def hilo_layer_def feature_at_def Math_round_def
        get_pointset_def arr_empty_def Let_def)
  show ?thesis
    using h empty_pointset_noop[OF h, of example_blend] by simp
qed


section \<open>Exceptions leaving the handler\<close>

lemma bucket_missing_geometry:
  "list_ex (\<lambda>f. getGeometry f = None) features \<Longrightarrow>
     bucket this fs cellSize features xyz = Inl TypeError"
  by (induction features arbitrary: xyz) (auto simp: Let_def split: option.splits prod.splits)

lemma collect_missing_data:
  assumes "missing_data fs"
  shows "\<exists>e. collect this fs = Inl e"
proof -
  obtain t z where tz: "zoom this (resolution fs) = (t, z)"
    by (cases "zoom this (resolution fs)") auto
  show ?thesis
  proof (cases "createCircle t (pixelRatio fs * z)")
    case (Inl e)
    then show ?thesis by (simp add: collect_def tz)
  next
    case (Inr c)
    from assms obtain layer where l: "find (\<lambda>l. is_hilomap l \<and> getVisible l) (layerStatesArray fs) = Some layer"
      by (cases "find (\<lambda>l. is_hilomap l \<and> getVisible l) (layerStatesArray fs)")
         (simp_all add: missing_data_def)
    show ?thesis
    proof (cases "getSource layer")
      case None
      then show ?thesis by (simp add: collect_def tz Inr l Let_def)
    next
      case (Some src)
      from assms l Some obtain features where f: "getFeatures src = Some features"
        and m: "list_ex (\<lambda>f. getGeometry f = None) features"
        by (cases "getFeatures src") (simp_all add: missing_data_def)
      then show ?thesis
        by (simp add: collect_def tz Inr l Some Let_def coarsen_def bucket_missing_geometry)
    qed
  qed
qed

text \<open>
  C9, as the claim states it, fails: a feature without geometry makes the handler raise.
\<close>

theorem handleRender_throws_counterexample:
  "handleRender example_blend example_layer
       \<lparr>event_context = example_context,
        frameState = example_frame
           [hilo_layer [feature_at 1 1 0.3, \<lparr>getGeometry = None, attr_weight = Some 0.8\<rparr>]]\<rparr>
     = Inl TypeError"
  by (simp add: handleRender_def collect_def zoom_def createCircle_def createCanvasContext2D_def
        cell_size_def coarsen_def
        example_layer_def example_frame_def hilo_layer_def feature_at_def Math_round_def
        Let_def)

text \<open>
  C9, amended.  The handler has no local catch: an exception raised before the drawing
  passes leaves it as it is.  In particular the handler throws to its caller whenever the
  first visible Hilomap layer of the frame has no source or has a feature without
  geometry.
\<close>

theorem handleRender_propagates:
  "(collect this (frameState event) = Inl e \<longrightarrow> handleRender blend this event = Inl e) \<and>
   (missing_data (frameState event) \<longrightarrow> (\<exists>e'. handleRender blend this event = Inl e'))"
proof (intro conjI impI)
  assume "collect this (frameState event) = Inl e"
  then show "handleRender blend this event = Inl e" by (simp add: handleRender_def)
next
  assume "missing_data (frameState event)"
  then obtain e' where "collect this (frameState event) = Inl e'"
    using collect_missing_data by blast
  then have "handleRender blend this event = Inl e'" by (simp add: handleRender_def)
  then show "\<exists>e'. handleRender blend this event = Inl e'" by blast
qed

theorem handleRender_propagates_witness:
  "collect example_layer
      (example_frame [\<lparr>is_hilomap = True, getVisible = True, getSource = None\<rparr>]) = Inl TypeError \<and>
   missing_data (example_frame [\<lparr>is_hilomap = True, getVisible = True, getSource = None\<rparr>]) \<and>
   handleRender example_blend example_layer
       \<lparr>event_context = example_context,
        frameState = example_frame [\<lparr>is_hilomap = True, getVisible = True, getSource = None\<rparr>]\<rparr>
     = Inl TypeError"
proof -
  let ?fs = "example_frame [\<lparr>is_hilomap = True, getVisible = True, getSource = None\<rparr>]"
  let ?ev = "\<lparr>event_context = example_context, frameState = ?fs\<rparr>"
  have c: "collect example_layer (frameState ?ev) = Inl TypeError"
    by (simp add: collect_def zoom_def createCircle_def createCanvasContext2D_def cell_size_def
        example_layer_def example_frame_def Math_round_def Let_def)
  have m: "missing_data (frameState ?ev)"
    by (simp add: missing_data_def example_frame_def)
  show ?thesis
    using c m handleRender_propagates[of example_layer ?ev TypeError example_blend] by simp
qed


section \<open>The low pass, the high pass and the final pass\<close>

lemma copy_alpha_inv:
  assumes "length src = n * 4"
  shows "m \<le> n \<Longrightarrow>
     fold (\<lambda>i a. a[i + 3 := store8 (src ! (i + 3))]) (map (\<lambda>k. 4 * k) [0..<m]) (replicate (n * 4) 0) =
     map (\<lambda>j. if j mod 4 = 3 \<and> j < 4 * m then store8 (src ! j) else 0) [0..<n * 4]"
proof (induction m)
  case 0
  show ?case by (simp add: map_replicate_const)
next
  case (Suc m)
  let ?old = "map (\<lambda>j. if j mod 4 = 3 \<and> j < 4 * m then store8 (src ! j) else 0) [0..<n * 4]"
  let ?new = "map (\<lambda>j. if j mod 4 = 3 \<and> j < 4 * Suc m then store8 (src ! j) else 0) [0..<n * 4]"
  have IH: "fold (\<lambda>i a. a[i + 3 := store8 (src ! (i + 3))]) (map (\<lambda>k. 4 * k) [0..<m])
      (replicate (n * 4) 0) = ?old"
    using Suc by simp
  have "?old[4 * m + 3 := store8 (src ! (4 * m + 3))] = ?new"
  proof (rule nth_equalityI)
    show "length (?old[4 * m + 3 := store8 (src ! (4 * m + 3))]) = length ?new" by simp
  next
    fix j assume "j < length (?old[4 * m + 3 := store8 (src ! (4 * m + 3))])"
    then have j: "j < n * 4" by simp
    show "?old[4 * m + 3 := store8 (src ! (4 * m + 3))] ! j = ?new ! j"
    proof (cases "j = 4 * m + 3")
      case True
      then show ?thesis using j by simp
    next
      case False
      have "(j mod 4 = 3 \<and> j < 4 * Suc m) \<longleftrightarrow> (j mod 4 = 3 \<and> j < 4 * m)"
        using False by presburger
      then show ?thesis using False j by simp
    qed
  qed
  then show ?case using IH by simp
qed

lemma copy_alpha_channel:
  assumes "length src = n * 4"
  shows "copy_alpha src (replicate (n * 4) 0) = alpha_channel src"
proof -
  have d: "(n * 4 + 3) div 4 = n" by simp
  have "copy_alpha src (replicate (n * 4) 0) =
      map (\<lambda>j. if j mod 4 = 3 \<and> j < 4 * n then store8 (src ! j) else 0) [0..<n * 4]"
    unfolding copy_alpha_def for4_def assms d by (rule copy_alpha_inv[OF assms]) simp
  also have "\<dots> = alpha_channel src"
    unfolding alpha_channel_def assms by (rule map_cong) (simp_all add: mult.commute)
  finally show ?thesis .
qed

lemma alpha_channel_zero: "alpha_channel (replicate n 0) = replicate n 0"
  by (rule nth_equalityI) (simp_all add: alpha_channel_def store8_def)

lemma draw_in_range:
  assumes "0 \<le> a" and "a \<le> 1"
  shows "drawImage blend ci dx dy (set_globalAlpha (Fin a) ctx) =
     ctx\<lparr>data := blend ci a dx dy (width ctx) (height ctx) (data ctx), globalAlpha := a,
         calls := calls ctx @ [DrawImage a dx dy]\<rparr>"
  using assms by (simp add: drawImage_def)

lemma split_fold:
  fixes step :: "point \<Rightarrow> context2d \<times> point list \<Rightarrow> context2d \<times> point list"
  assumes step: "\<And>p c hi. step (numeric p) (c, hi) =
        (if low p then (drawImage blend ci (X p) (Y p) (set_globalAlpha (Fin (a p)) c), hi)
         else (c, hi @ [numeric p]))"
    and rng: "\<forall>p\<in>set ps. low p \<longrightarrow> 0 \<le> a p \<and> a p \<le> 1"
  shows "case fold step (map numeric ps) (ctx, hi) of
     (ctx', hi') \<Rightarrow>
        data ctx' = fold (\<lambda>p. blend ci (a p) (X p) (Y p) (width ctx) (height ctx))
                      (filter low ps) (data ctx) \<and>
        calls ctx' = calls ctx @ map (\<lambda>p. DrawImage (a p) (X p) (Y p)) (filter low ps) \<and>
        hi' = hi @ map numeric (filter (\<lambda>p. \<not> low p) ps) \<and>
        width ctx' = width ctx \<and> height ctx' = height ctx"
  using rng
proof (induction ps arbitrary: ctx hi)
  case Nil
  then show ?case by simp
next
  case (Cons p ps)
  from Cons.prems have rest: "\<forall>p\<in>set ps. low p \<longrightarrow> 0 \<le> a p \<and> a p \<le> 1" by simp
  show ?case
  proof (cases "low p")
    case True
    with Cons.prems have r: "0 \<le> a p" "a p \<le> 1" by simp_all
    define ctx1 where "ctx1 = drawImage blend ci (X p) (Y p) (set_globalAlpha (Fin (a p)) ctx)"
    have e: "ctx1 = ctx\<lparr>data := blend ci (a p) (X p) (Y p) (width ctx) (height ctx) (data ctx),
         globalAlpha := a p, calls := calls ctx @ [DrawImage (a p) (X p) (Y p)]\<rparr>"
      unfolding ctx1_def by (rule draw_in_range[OF r])
    have s: "fold step (map numeric (p # ps)) (ctx, hi) = fold step (map numeric ps) (ctx1, hi)"
      using True by (simp add: step ctx1_def del: set_globalAlpha.simps)
    show ?thesis
      unfolding s using Cons.IH[OF rest, of ctx1 hi] True
      by (simp add: e split: prod.splits)
  next
    case False
    then show ?thesis
      using Cons.IH[OF rest, of ctx "hi @ [numeric p]"]
      by (simp add: step split: prod.splits)
  qed
qed

lemma draw_fold:
  fixes step :: "point \<Rightarrow> context2d \<Rightarrow> context2d"
  assumes step: "\<And>p c. step (numeric p) c = drawImage blend ci (X p) (Y p) (set_globalAlpha (Fin (a p)) c)"
    and rng: "\<forall>p\<in>set ps. 0 \<le> a p \<and> a p \<le> 1"
  shows "data (fold step (map numeric ps) ctx) =
           fold (\<lambda>p. blend ci (a p) (X p) (Y p) (width ctx) (height ctx)) ps (data ctx) \<and>
         calls (fold step (map numeric ps) ctx) = calls ctx @ map (\<lambda>p. DrawImage (a p) (X p) (Y p)) ps \<and>
         width (fold step (map numeric ps) ctx) = width ctx \<and>
         height (fold step (map numeric ps) ctx) = height ctx"
  using rng
proof (induction ps arbitrary: ctx)
  case Nil
  then show ?case by simp
next
  case (Cons p ps)
  from Cons.prems have rest: "\<forall>p\<in>set ps. 0 \<le> a p \<and> a p \<le> 1"
    and r: "0 \<le> a p" "a p \<le> 1" by simp_all
  define ctx1 where "ctx1 = step (numeric p) ctx"
  have e: "ctx1 = ctx\<lparr>data := blend ci (a p) (X p) (Y p) (width ctx) (height ctx) (data ctx),
       globalAlpha := a p, calls := calls ctx @ [DrawImage (a p) (X p) (Y p)]\<rparr>"
    unfolding ctx1_def step by (rule draw_in_range[OF r])
  have s: "fold step (map numeric (p # ps)) ctx = fold step (map numeric ps) ctx1"
    by (simp add: ctx1_def)
  show ?case
    unfolding s using Cons.IH[OF rest, of ctx1]
    by (simp add: e)
qed

lemma low_fold:
  assumes "\<forall>p\<in>set ps. 0 \<le> snd (snd p) \<and> snd (snd p) \<le> 1"
  shows "case fold (low_step blend ci radius) (map numeric ps) (ctx, hi) of
     (ctx', hi') \<Rightarrow>
        data ctx' = fold (\<lambda>p. blend ci ((0.5 - snd (snd p)) * 2) (real_of_int (fst p) - radius) (real_of_int (fst (snd p)) - radius) (width ctx) (height ctx))
                      (filter (\<lambda>p. snd (snd p) \<le> 0.5) ps) (data ctx) \<and>
        calls ctx' = calls ctx @ map (\<lambda>p. DrawImage ((0.5 - snd (snd p)) * 2) (real_of_int (fst p) - radius) (real_of_int (fst (snd p)) - radius)) (filter (\<lambda>p. snd (snd p) \<le> 0.5) ps) \<and>
        hi' = hi @ map numeric (filter (\<lambda>p. \<not> snd (snd p) \<le> 0.5) ps) \<and>
        width ctx' = width ctx \<and> height ctx' = height ctx"
proof (rule split_fold)
  show "low_step blend ci radius (numeric p) (c, hi) =
        (if snd (snd p) \<le> 0.5
         then (drawImage blend ci (real_of_int (fst p) - radius) (real_of_int (fst (snd p)) - radius) (set_globalAlpha (Fin ((0.5 - snd (snd p)) * 2)) c), hi)
         else (c, hi @ [numeric p]))" for p c hi
    by (simp add: low_step_def numeric_def mult.commute del: set_globalAlpha.simps)
  show "\<forall>p\<in>set ps. snd (snd p) \<le> 0.5 \<longrightarrow> 0 \<le> ((0.5 - snd (snd p)) * 2) \<and> ((0.5 - snd (snd p)) * 2) \<le> 1"
    using assms by auto
qed

lemma high_fold:
  assumes "\<forall>p\<in>set hs. 0.5 < snd (snd p) \<and> snd (snd p) \<le> 1"
  shows "data (fold (high_step blend ci radius) (map numeric hs) ctx) =
           fold (\<lambda>p. blend ci ((snd (snd p) - 0.5) * 2) (real_of_int (fst p) - radius) (real_of_int (fst (snd p)) - radius) (width ctx) (height ctx)) hs (data ctx) \<and>
         calls (fold (high_step blend ci radius) (map numeric hs) ctx) =
           calls ctx @ map (\<lambda>p. DrawImage ((snd (snd p) - 0.5) * 2) (real_of_int (fst p) - radius) (real_of_int (fst (snd p)) - radius)) hs \<and>
         width (fold (high_step blend ci radius) (map numeric hs) ctx) = width ctx \<and>
         height (fold (high_step blend ci radius) (map numeric hs) ctx) = height ctx"
proof (rule draw_fold)
  show "high_step blend ci radius (numeric p) c =
      drawImage blend ci (real_of_int (fst p) - radius) (real_of_int (fst (snd p)) - radius) (set_globalAlpha (Fin ((snd (snd p) - 0.5) * 2)) c)" for p c
    by (simp add: high_step_def numeric_def mult.commute del: set_globalAlpha.simps)
  show "\<forall>p\<in>set hs. 0 \<le> ((snd (snd p) - 0.5) * 2) \<and> ((snd (snd p) - 0.5) * 2) \<le> 1"
    using assms by auto
qed

lemma final_fold:
  assumes "\<forall>p\<in>set ps. 0 \<le> snd (snd p) \<and> snd (snd p) \<le> 1"
  shows "data (fold (final_step blend ci radius) (map numeric ps) ctx) =
           fold (\<lambda>p. blend ci (if snd (snd p) \<le> 0.5 then (0.5 - snd (snd p)) * 2 else (snd (snd p) - 0.5) * 2) (real_of_int (fst p) - radius) (real_of_int (fst (snd p)) - radius) (width ctx) (height ctx)) ps (data ctx) \<and>
         calls (fold (final_step blend ci radius) (map numeric ps) ctx) =
           calls ctx @ map (\<lambda>p. DrawImage (if snd (snd p) \<le> 0.5 then (0.5 - snd (snd p)) * 2 else (snd (snd p) - 0.5) * 2) (real_of_int (fst p) - radius) (real_of_int (fst (snd p)) - radius)) ps \<and>
         width (fold (final_step blend ci radius) (map numeric ps) ctx) = width ctx \<and>
         height (fold (final_step blend ci radius) (map numeric ps) ctx) = height ctx"
proof (rule draw_fold)
  show "final_step blend ci radius (numeric p) c =
      drawImage blend ci (real_of_int (fst p) - radius) (real_of_int (fst (snd p)) - radius) (set_globalAlpha (Fin (if snd (snd p) \<le> 0.5 then (0.5 - snd (snd p)) * 2 else (snd (snd p) - 0.5) * 2)) c)" for p c
    by (simp add: final_step_def numeric_def mult.commute del: set_globalAlpha.simps)
  show "\<forall>p\<in>set ps. 0 \<le> (if snd (snd p) \<le> 0.5 then (0.5 - snd (snd p)) * 2 else (snd (snd p) - 0.5) * 2) \<and> (if snd (snd p) \<le> 0.5 then (0.5 - snd (snd p)) * 2 else (snd (snd p) - 0.5) * 2) \<le> 1"
    using assms by auto
qed

lemma blend_fold_length:
  assumes "\<And>alpha dx dy d. length (f alpha dx dy d) = length d"
  shows "length (fold (\<lambda>p. f (a p) (X p) (Y p)) ps d) = length d"
  by (induction ps arbitrary: d) (simp_all add: assms)

lemma stamped_length:
  assumes "\<forall>alpha dx dy d. length (blend ci alpha dx dy w h d) = length d"
  shows "length (stamped blend ci radius a w h ps) = w * h * 4"
proof -
  have "length (fold (\<lambda>p. (\<lambda>alpha dx dy. blend ci alpha dx dy w h) (a p)
            (real_of_int (fst p) - radius) (real_of_int (fst (snd p)) - radius)) ps
          (replicate (w * h * 4) 0)) = length (replicate (w * h * 4) (0::int))"
    by (rule blend_fold_length) (simp add: assms)
  then show ?thesis by (simp add: stamped_def)
qed

lemma composite_numeric:
  assumes w: "\<forall>p\<in>set pts. 0 \<le> snd (snd p) \<and> snd (snd p) \<le> 1"
    and len: "\<forall>alpha dx dy d. length (blend ci alpha dx dy (width ctx) (height ctx) d) = length d"
  shows "fst (composite blend ci radius (map numeric pts) ctx) =
       alpha_channel (stamped blend ci radius (\<lambda>p. ((0.5 - snd (snd p)) * 2)) (width ctx) (height ctx)
                       (filter (\<lambda>p. snd (snd p) \<le> 0.5) pts)) \<and>
     fst (snd (composite blend ci radius (map numeric pts) ctx)) =
       alpha_channel (stamped blend ci radius (\<lambda>p. ((snd (snd p) - 0.5) * 2)) (width ctx) (height ctx)
                       (filter (\<lambda>p. snd (snd p) > 0.5) pts)) \<and>
     data (snd (snd (composite blend ci radius (map numeric pts) ctx))) =
       stamped blend ci radius (\<lambda>p. (if snd (snd p) \<le> 0.5 then (0.5 - snd (snd p)) * 2 else (snd (snd p) - 0.5) * 2)) (width ctx) (height ctx) pts \<and>
     calls (snd (snd (composite blend ci radius (map numeric pts) ctx))) =
        calls ctx @ [ClearRect] @
        map (\<lambda>p. DrawImage ((0.5 - snd (snd p)) * 2) (real_of_int (fst p) - radius) (real_of_int (fst (snd p)) - radius)) (filter (\<lambda>p. snd (snd p) \<le> 0.5) pts) @
        [GetImageData, ClearRect] @
        map (\<lambda>p. DrawImage ((snd (snd p) - 0.5) * 2) (real_of_int (fst p) - radius) (real_of_int (fst (snd p)) - radius)) (filter (\<lambda>p. snd (snd p) > 0.5) pts) @
        [GetImageData, ClearRect] @
        map (\<lambda>p. DrawImage (if snd (snd p) \<le> 0.5 then (0.5 - snd (snd p)) * 2 else (snd (snd p) - 0.5) * 2) (real_of_int (fst p) - radius) (real_of_int (fst (snd p)) - radius)) pts"
proof -
  let ?W = "width ctx" and ?H = "height ctx"
  let ?lows = "filter (\<lambda>p. snd (snd p) \<le> 0.5) pts"
  let ?highs = "filter (\<lambda>p. snd (snd p) > 0.5) pts"
  let ?lowdata = "stamped blend ci radius (\<lambda>p. ((0.5 - snd (snd p)) * 2)) ?W ?H ?lows"
  let ?highdata = "stamped blend ci radius (\<lambda>p. ((snd (snd p) - 0.5) * 2)) ?W ?H ?highs"
  let ?finaldata = "stamped blend ci radius (\<lambda>p. (if snd (snd p) \<le> 0.5 then (0.5 - snd (snd p)) * 2 else (snd (snd p) - 0.5) * 2)) ?W ?H pts"
  obtain ctx2 hipoints where
    lo: "fold (low_step blend ci radius) (map numeric pts) (clearRect ctx, []) = (ctx2, hipoints)"
    by (cases "fold (low_step blend ci radius) (map numeric pts) (clearRect ctx, [])") auto
  from low_fold[OF w, where blend = blend and ci = ci and radius = radius
      and ctx = "clearRect ctx" and hi = "[]"] lo
  have d2: "data ctx2 = ?lowdata"
    and c2: "calls ctx2 = calls ctx @ [ClearRect] @ map (\<lambda>p. DrawImage ((0.5 - snd (snd p)) * 2) (real_of_int (fst p) - radius) (real_of_int (fst (snd p)) - radius)) ?lows"
    and hi: "hipoints = map numeric ?highs"
    and w2: "width ctx2 = ?W" and h2: "height ctx2 = ?H"
    by (simp_all add: clearRect_def not_le stamped_def)
  have wh: "\<forall>p\<in>set ?highs. 0.5 < snd (snd p) \<and> snd (snd p) \<le> 1"
    using w by auto
  have l2: "length ?lowdata = ?W * ?H * 4" using len by (rule stamped_length)
  have loA: "copy_alpha (data ctx2) (replicate (width ctx2 * height ctx2 * 4) 0) = alpha_channel ?lowdata"
    unfolding d2 w2 h2 by (rule copy_alpha_channel[OF l2])
  define ctx4 where "ctx4 = clearRect (snd (getImageData ctx2))"
  have p4: "data ctx4 = replicate (?W * ?H * 4) 0" "calls ctx4 = calls ctx2 @ [GetImageData, ClearRect]"
    "width ctx4 = ?W" "height ctx4 = ?H"
    by (simp_all add: ctx4_def clearRect_def getImageData_def w2 h2)
  define ctx5 where "ctx5 = fold (high_step blend ci radius) hipoints ctx4"
  from high_fold[OF wh, where blend = blend and ci = ci and radius = radius and ctx = ctx4]
  have d5: "data ctx5 = ?highdata"
    and c5: "calls ctx5 = calls ctx2 @ [GetImageData, ClearRect] @ map (\<lambda>p. DrawImage ((snd (snd p) - 0.5) * 2) (real_of_int (fst p) - radius) (real_of_int (fst (snd p)) - radius)) ?highs"
    and w5: "width ctx5 = ?W" and h5: "height ctx5 = ?H"
    unfolding ctx5_def hi by (simp_all add: p4 stamped_def)
  have l5: "length ?highdata = ?W * ?H * 4" using len by (rule stamped_length)
  have hiA: "copy_alpha (data ctx5) (replicate (width ctx5 * height ctx5 * 4) 0) = alpha_channel ?highdata"
    unfolding d5 w5 h5 by (rule copy_alpha_channel[OF l5])
  define ctx7 where "ctx7 = clearRect (snd (getImageData ctx5))"
  have p7: "data ctx7 = replicate (?W * ?H * 4) 0" "calls ctx7 = calls ctx5 @ [GetImageData, ClearRect]"
    "width ctx7 = ?W" "height ctx7 = ?H"
    by (simp_all add: ctx7_def clearRect_def getImageData_def w5 h5)
  define ctx8 where "ctx8 = fold (final_step blend ci radius) (map numeric pts) ctx7"
  from final_fold[OF w, where blend = blend and ci = ci and radius = radius and ctx = ctx7]
  have d8: "data ctx8 = ?finaldata"
    and c8: "calls ctx8 = calls ctx5 @ [GetImageData, ClearRect] @ map (\<lambda>p. DrawImage (if snd (snd p) \<le> 0.5 then (0.5 - snd (snd p)) * 2 else (snd (snd p) - 0.5) * 2) (real_of_int (fst p) - radius) (real_of_int (fst (snd p)) - radius)) pts"
    unfolding ctx8_def by (simp_all add: p7 stamped_def)
  have e: "composite blend ci radius (map numeric pts) ctx =
      (copy_alpha (data ctx2) (replicate (width ctx2 * height ctx2 * 4) 0),
       copy_alpha (data ctx5) (replicate (width ctx5 * height ctx5 * 4) 0), ctx8)"
    by (simp add: composite_def Let_def lo ctx8_def ctx7_def ctx5_def ctx4_def getImageData_def
        split: prod.splits)
  have c: "calls ctx8 =
        calls ctx @ [ClearRect] @
        map (\<lambda>p. DrawImage ((0.5 - snd (snd p)) * 2) (real_of_int (fst p) - radius) (real_of_int (fst (snd p)) - radius)) ?lows @
        [GetImageData, ClearRect] @
        map (\<lambda>p. DrawImage ((snd (snd p) - 0.5) * 2) (real_of_int (fst p) - radius) (real_of_int (fst (snd p)) - radius)) ?highs @
        [GetImageData, ClearRect] @
        map (\<lambda>p. DrawImage (if snd (snd p) \<le> 0.5 then (0.5 - snd (snd p)) * 2 else (snd (snd p) - 0.5) * 2) (real_of_int (fst p) - radius) (real_of_int (fst (snd p)) - radius)) pts"
    unfolding c8 c5 c2 append_assoc ..
  show ?thesis
    unfolding e loA hiA snd_conv fst_conv by (intro conjI refl d8 c)
qed

text \<open>
  C4.  Take a point set whose weights are numbers in [0, 1], a canvas of at least one pixel
  and a compositor that returns as many bytes as it receives.  Then the low alpha buffer holds the alpha bytes of a
  cleared canvas onto which exactly the points of weight at most 0.5 were stamped, each
  with paint opacity \<open>(0.5 - w) * 2\<close>; the high alpha buffer holds the alpha bytes of a
  cleared canvas onto which exactly the points of weight above 0.5 were stamped, each with
  paint opacity \<open>(w - 0.5) * 2\<close>; the canvas is left as a cleared canvas onto which every
  point was stamped with the opacity of its own pass; and the calls made on the context
  are these three rounds, each a clear followed by its stamps, with a read-back after the
  first and after the second.  A single point of weight 0.3 leaves the high buffer all
  zero and a single point of weight 0.8 leaves the low buffer all zero, the other buffer
  holding the alpha bytes of the one stamp.  A point whose weight is NaN is neither: it is
  stamped in the second and in the third round with the paint opacity left in force.
\<close>

theorem dual_pass_compositing:
  assumes "\<forall>p\<in>set pts. 0 \<le> snd (snd p) \<and> snd (snd p) \<le> 1"
    and "\<forall>alpha dx dy d.
           length (blend circleImage alpha dx dy (width ctx) (height ctx) d) = length d"
    and "0 < width ctx \<and> 0 < height ctx"
  shows "(case composite blend circleImage radius (map numeric pts) ctx of
      (loA, hiA, ctx') \<Rightarrow>
        loA = alpha_channel
                (stamped blend circleImage radius (\<lambda>p. ((0.5 - snd (snd p)) * 2)) (width ctx) (height ctx)
                   (filter (\<lambda>p. snd (snd p) \<le> 0.5) pts)) \<and>
        hiA = alpha_channel
                (stamped blend circleImage radius (\<lambda>p. ((snd (snd p) - 0.5) * 2)) (width ctx) (height ctx)
                   (filter (\<lambda>p. snd (snd p) > 0.5) pts)) \<and>
        data ctx' =
          stamped blend circleImage radius (\<lambda>p. (if snd (snd p) \<le> 0.5 then (0.5 - snd (snd p)) * 2 else (snd (snd p) - 0.5) * 2)) (width ctx) (height ctx) pts \<and>
        calls ctx' =
          calls ctx @ [ClearRect] @
          map (\<lambda>p. stamp_call radius ((0.5 - snd (snd p)) * 2) p) (filter (\<lambda>p. snd (snd p) \<le> 0.5) pts) @
          [GetImageData, ClearRect] @
          map (\<lambda>p. stamp_call radius ((snd (snd p) - 0.5) * 2) p) (filter (\<lambda>p. snd (snd p) > 0.5) pts) @
          [GetImageData, ClearRect] @
          map (\<lambda>p. stamp_call radius (if snd (snd p) \<le> 0.5 then (0.5 - snd (snd p)) * 2 else (snd (snd p) - 0.5) * 2) p) pts) \<and>
   (case composite blend circleImage radius [(x, y, Fin 0.3)] ctx of
      (loA, hiA, ctx') \<Rightarrow>
        hiA = replicate (width ctx * height ctx * 4) 0 \<and>
        loA = alpha_channel
                (blend circleImage 0.4 (real_of_int x - radius) (real_of_int y - radius)
                   (width ctx) (height ctx) (replicate (width ctx * height ctx * 4) 0))) \<and>
   (case composite blend circleImage radius [(x, y, Fin 0.8)] ctx of
      (loA, hiA, ctx') \<Rightarrow>
        loA = replicate (width ctx * height ctx * 4) 0 \<and>
        hiA = alpha_channel
                (blend circleImage 0.6 (real_of_int x - radius) (real_of_int y - radius)
                   (width ctx) (height ctx) (replicate (width ctx * height ctx * 4) 0))) \<and>
   calls (snd (snd (composite example_blend example_circle 11 [(1, 1, NaN)] example_context))) =
     [ClearRect, GetImageData, ClearRect, DrawImage 1 (- 10) (- 10), GetImageData,
      ClearRect, DrawImage 1 (- 10) (- 10)]"
proof (intro conjI)
  note n = composite_numeric[where blend = blend and ci = circleImage and ctx = ctx and pts = pts
      and radius = radius, OF assms(1,2)]
  show "case composite blend circleImage radius (map numeric pts) ctx of
      (loA, hiA, ctx') \<Rightarrow>
        loA = alpha_channel
                (stamped blend circleImage radius (\<lambda>p. ((0.5 - snd (snd p)) * 2)) (width ctx) (height ctx)
                   (filter (\<lambda>p. snd (snd p) \<le> 0.5) pts)) \<and>
        hiA = alpha_channel
                (stamped blend circleImage radius (\<lambda>p. ((snd (snd p) - 0.5) * 2)) (width ctx) (height ctx)
                   (filter (\<lambda>p. snd (snd p) > 0.5) pts)) \<and>
        data ctx' =
          stamped blend circleImage radius (\<lambda>p. (if snd (snd p) \<le> 0.5 then (0.5 - snd (snd p)) * 2 else (snd (snd p) - 0.5) * 2)) (width ctx) (height ctx) pts \<and>
        calls ctx' =
          calls ctx @ [ClearRect] @
          map (\<lambda>p. stamp_call radius ((0.5 - snd (snd p)) * 2) p) (filter (\<lambda>p. snd (snd p) \<le> 0.5) pts) @
          [GetImageData, ClearRect] @
          map (\<lambda>p. stamp_call radius ((snd (snd p) - 0.5) * 2) p) (filter (\<lambda>p. snd (snd p) > 0.5) pts) @
          [GetImageData, ClearRect] @
          map (\<lambda>p. stamp_call radius (if snd (snd p) \<le> 0.5 then (0.5 - snd (snd p)) * 2 else (snd (snd p) - 0.5) * 2) p) pts"
    unfolding case_prod_unfold stamp_call_def by (rule n)
next
  have h: "\<forall>p\<in>set [(x, y, 0.3 :: real)]. 0 \<le> snd (snd p) \<and> snd (snd p) \<le> 1" by simp
  show "case composite blend circleImage radius [(x, y, Fin 0.3)] ctx of
      (loA, hiA, ctx') \<Rightarrow>
        hiA = replicate (width ctx * height ctx * 4) 0 \<and>
        loA = alpha_channel
                (blend circleImage 0.4 (real_of_int x - radius) (real_of_int y - radius)
                   (width ctx) (height ctx) (replicate (width ctx * height ctx * 4) 0))"
    using composite_numeric[where blend = blend and ci = circleImage and ctx = ctx
        and radius = radius, OF h assms(2)]
    by (simp add: case_prod_unfold numeric_def stamped_def alpha_channel_zero)
next
  have h: "\<forall>p\<in>set [(x, y, 0.8 :: real)]. 0 \<le> snd (snd p) \<and> snd (snd p) \<le> 1" by simp
  show "case composite blend circleImage radius [(x, y, Fin 0.8)] ctx of
      (loA, hiA, ctx') \<Rightarrow>
        loA = replicate (width ctx * height ctx * 4) 0 \<and>
        hiA = alpha_channel
                (blend circleImage 0.6 (real_of_int x - radius) (real_of_int y - radius)
                   (width ctx) (height ctx) (replicate (width ctx * height ctx * 4) 0))"
    using composite_numeric[where blend = blend and ci = circleImage and ctx = ctx
        and radius = radius, OF h assms(2)]
    by (simp add: case_prod_unfold numeric_def stamped_def alpha_channel_zero)
next
  show "calls (snd (snd (composite example_blend example_circle 11 [(1, 1, NaN)] example_context))) =
     [ClearRect, GetImageData, ClearRect, DrawImage 1 (- 10) (- 10), GetImageData,
      ClearRect, DrawImage 1 (- 10) (- 10)]"
    by (simp add: composite_def low_step_def high_step_def final_step_def drawImage_def
        clearRect_def getImageData_def example_context_def Let_def)
qed

theorem dual_pass_compositing_witness:
  "(case composite covering_blend wide_circle 51 [(1, 1, Fin 0.3), (7, 1, Fin 0.8)] example_context of
      (loA, hiA, ctx') \<Rightarrow>
        loA = [0, 0, 0, 102, 0, 0, 0, 102] \<and>
        hiA = [0, 0, 0, 153, 0, 0, 0, 153] \<and>
        data ctx' = [0, 0, 0, 194, 0, 0, 0, 194] \<and>
        calls ctx' =
          [ClearRect, DrawImage 0.4 (- 50) (- 50), GetImageData,
           ClearRect, DrawImage 0.6 (- 44) (- 50), GetImageData,
           ClearRect, DrawImage 0.4 (- 50) (- 50), DrawImage 0.6 (- 44) (- 50)])"
proof -
  have h1: "\<forall>p\<in>set [(1 :: int, 1 :: int, 0.3 :: real), (7, 1, 0.8)].
             0 \<le> snd (snd p) \<and> snd (snd p) \<le> 1"
    by simp
  have h2: "\<forall>alpha dx dy d.
      length (covering_blend wide_circle alpha dx dy (width example_context)
                (height example_context) d) = length d"
    by (simp add: covering_blend_def)
  have h3: "0 < width example_context \<and> 0 < height example_context"
    by (simp add: example_context_def)
  have "case composite covering_blend wide_circle 51
             (map numeric [(1, 1, 0.3), (7, 1, 0.8)]) example_context of
      (loA, hiA, ctx') \<Rightarrow>
        loA = alpha_channel
                (stamped covering_blend wide_circle 51 (\<lambda>p. ((0.5 - snd (snd p)) * 2)) (width example_context)
                   (height example_context)
                   (filter (\<lambda>p. snd (snd p) \<le> 0.5) [(1, 1, 0.3), (7, 1, 0.8)])) \<and>
        hiA = alpha_channel
                (stamped covering_blend wide_circle 51 (\<lambda>p. ((snd (snd p) - 0.5) * 2)) (width example_context)
                   (height example_context)
                   (filter (\<lambda>p. snd (snd p) > 0.5) [(1, 1, 0.3), (7, 1, 0.8)])) \<and>
        data ctx' =
          stamped covering_blend wide_circle 51 (\<lambda>p. (if snd (snd p) \<le> 0.5 then (0.5 - snd (snd p)) * 2 else (snd (snd p) - 0.5) * 2)) (width example_context)
            (height example_context) [(1, 1, 0.3), (7, 1, 0.8)] \<and>
        calls ctx' =
          calls example_context @ [ClearRect] @
          map (\<lambda>p. stamp_call 51 ((0.5 - snd (snd p)) * 2) p) (filter (\<lambda>p. snd (snd p) \<le> 0.5) [(1, 1, 0.3), (7, 1, 0.8)]) @
          [GetImageData, ClearRect] @
          map (\<lambda>p. stamp_call 51 ((snd (snd p) - 0.5) * 2) p) (filter (\<lambda>p. snd (snd p) > 0.5) [(1, 1, 0.3), (7, 1, 0.8)]) @
          [GetImageData, ClearRect] @
          map (\<lambda>p. stamp_call 51 (if snd (snd p) \<le> 0.5 then (0.5 - snd (snd p)) * 2 else (snd (snd p) - 0.5) * 2) p) [(1, 1, 0.3), (7, 1, 0.8)]"
    using dual_pass_compositing[where blend = covering_blend and circleImage = wide_circle
        and ctx = example_context and radius = 51, OF h1 h2 h3] by (rule conjunct1)
  then show ?thesis
    by (simp add: case_prod_unfold numeric_def stamped_def alpha_channel_def covering_blend_def
        upt8 rep8 Math_round_def store8_def example_context_def stamp_call_def)
qed


end
